theory Spec2Isabelle
  imports Main
begin

section \<open>Go runtime conventions\<close>

text \<open>
  A Go function either returns or panics. A panic is the left summand of the result,
  a normal return the right one. Recursion over the pointer graph of a design is
  given fuel: \<open>None\<close> stands for a call that has not returned within the fuel.
\<close>

datatype panic =
    UnknownKind              \<comment> \<open>\<^verbatim>\<open>panic("unknown kind")\<close> of \<^verbatim>\<open>ErrorKind.Title\<close>\<close>
  | NilDereference           \<comment> \<open>field or method access through a nil pointer or nil interface\<close>
  | IndexOutOfRange          \<comment> \<open>slice or array index out of range\<close>

abbreviation dq :: char where "dq \<equiv> CHR 0x22"
abbreviation bsl :: char where "bsl \<equiv> CHR 0x5C"

subsection \<open>Formatting verbs of package fmt\<close>

text \<open>\<^verbatim>\<open>strings.Join\<close>.\<close>

fun join :: "string list \<Rightarrow> string \<Rightarrow> string" where
  "join [] sep = []"
| "join [x] sep = x"
| "join (x # y # ys) sep = x @ sep @ join (y # ys) sep"

text \<open>The verb \<^verbatim>\<open>%d\<close> on an \<^verbatim>\<open>int\<close>: decimal digits, a leading minus sign.\<close>

definition digit_char :: "nat \<Rightarrow> char" where
  "digit_char d = ''0123456789'' ! (d mod 10)"

fun digits :: "nat \<Rightarrow> string" where
  "digits n = (if n < 10 then [digit_char n] else digits (n div 10) @ [digit_char n])"

declare digits.simps [simp del]

definition fmt_d :: "int \<Rightarrow> string" where
  "fmt_d i = (if i < 0 then CHR ''-'' # digits (nat (- i)) else digits (nat i))"

text \<open>
  The verb \<^verbatim>\<open>%#v\<close> on a string is \<^verbatim>\<open>strconv.Quote\<close>: the text between double
  quotes, with a backslash before a double quote or a backslash, the short escapes of the
  control characters that have one, and \<^verbatim>\<open>\x\<close> with two hexadecimal digits for every
  other byte outside printable ASCII (Go prints a valid multi-byte rune as it is; the
  model is exact on ASCII text).
\<close>

definition hex_char :: "nat \<Rightarrow> char" where
  "hex_char d = ''0123456789abcdef'' ! (d mod 16)"

definition quote_char :: "char \<Rightarrow> string" where
  "quote_char c =
     (if c = dq then [bsl, dq]
      else if c = bsl then [bsl, bsl]
      else if c = CHR 0x07 then [bsl, CHR ''a'']
      else if c = CHR 0x08 then [bsl, CHR ''b'']
      else if c = CHR 0x0C then [bsl, CHR ''f'']
      else if c = CHR 0x0A then [bsl, CHR ''n'']
      else if c = CHR 0x0D then [bsl, CHR ''r'']
      else if c = CHR 0x09 then [bsl, CHR ''t'']
      else if c = CHR 0x0B then [bsl, CHR ''v'']
      else if of_char c < (0x20 :: nat) \<or> (0x7F :: nat) \<le> of_char c
        then [bsl, CHR ''x'', hex_char (of_char c div 16), hex_char (of_char c)]
      else [c])"

definition quote :: "string \<Rightarrow> string" where
  "quote s = dq # concat (map quote_char s) @ [dq]"

text \<open>
  The dynamic values handed to the helpers as \<^verbatim>\<open>interface{}\<close>: the nil interface,
  booleans, integers and strings (the kinds a decoded request parameter has), each with
  its \<^verbatim>\<open>%#v\<close> text.
\<close>

datatype go_value = VNil | VBool bool | VInt int | VString string

fun fmt_sharp_v :: "go_value \<Rightarrow> string" where
  "fmt_sharp_v VNil = ''<nil>''"
| "fmt_sharp_v (VBool b) = (if b then ''true'' else ''false'')"
| "fmt_sharp_v (VInt i) = fmt_d i"
| "fmt_sharp_v (VString s) = quote s"

section \<open>error.go: the typed errors of package goa\<close>

text \<open>
  \<^verbatim>\<open>type ErrorKind int\<close>; the ten constants are \<^verbatim>\<open>iota + 1\<close>, that is 1 to 10 in
  the order of their declaration.
\<close>

type_synonym ErrorKind = int

definition ErrInvalidParamType :: ErrorKind where "ErrInvalidParamType = 1"
definition ErrMissingParam :: ErrorKind where "ErrMissingParam = 2"
definition ErrInvalidAttributeType :: ErrorKind where "ErrInvalidAttributeType = 3"
definition ErrMissingAttribute :: ErrorKind where "ErrMissingAttribute = 4"
definition ErrInvalidEnumValue :: ErrorKind where "ErrInvalidEnumValue = 5"
definition ErrMissingHeader :: ErrorKind where "ErrMissingHeader = 6"
definition ErrInvalidFormat :: ErrorKind where "ErrInvalidFormat = 7"
definition ErrInvalidPattern :: ErrorKind where "ErrInvalidPattern = 8"
definition ErrInvalidRange :: ErrorKind where "ErrInvalidRange = 9"
definition ErrInvalidLength :: ErrorKind where "ErrInvalidLength = 10"

definition error_kinds :: "ErrorKind list" where
  "error_kinds =
     [ErrInvalidParamType, ErrMissingParam, ErrInvalidAttributeType, ErrMissingAttribute,
      ErrInvalidEnumValue, ErrMissingHeader, ErrInvalidFormat, ErrInvalidPattern,
      ErrInvalidRange, ErrInvalidLength]"

text \<open>\<^verbatim>\<open>func (k ErrorKind) Title() string\<close>: the switch in the order of the source.\<close>

definition Title :: "ErrorKind \<Rightarrow> panic + string" where
  "Title k =
     (if k = ErrInvalidParamType then Inr ''invalid parameter value''
      else if k = ErrMissingParam then Inr ''missing required parameter''
      else if k = ErrInvalidAttributeType then Inr ''invalid attribute type''
      else if k = ErrMissingAttribute then Inr ''missing required attribute''
      else if k = ErrMissingHeader then Inr ''missing required HTTP header''
      else if k = ErrInvalidEnumValue then Inr ''invalid value''
      else if k = ErrInvalidRange then Inr ''invalid value range''
      else if k = ErrInvalidLength then Inr ''invalid value length''
      else Inl UnknownKind)"

record TypedError =
  Kind :: ErrorKind
  Mesg :: string

text \<open>
  A non-nil value of the interface \<^verbatim>\<open>error\<close>: a \<^verbatim>\<open>*TypedError\<close>, a
  \<^verbatim>\<open>MultiError\<close> (a slice of errors), or an error of any other type, which is known by
  the text its \<^verbatim>\<open>Error\<close> method returns. The nil interface is \<open>None\<close> of
  \<open>error option\<close>.
\<close>

datatype error =
    TypedErr TypedError
  | MultiErr "error list"
  | OtherErr string

text \<open>\<^verbatim>\<open>func (t *TypedError) Error() string\<close>.\<close>

definition TypedError_Error :: "TypedError \<Rightarrow> panic + string" where
  "TypedError_Error t =
     (case Title (Kind t) of
        Inl p \<Rightarrow> Inl p
      | Inr title \<Rightarrow>
          Inr ([CHR ''{'', dq] @ ''kind'' @ [dq, CHR '':'', dq] @ title
               @ [dq, CHR '','', dq] @ ''msg'' @ [dq, CHR '':'', dq] @ Mesg t
               @ [dq, CHR ''}'']))"

text \<open>
  The method \<^verbatim>\<open>Error\<close> of an error value, with \<^verbatim>\<open>func (m MultiError) Error()\<close>:
  the loop over the elements writes each text (between double quotes unless the element is
  a \<^verbatim>\<open>*TypedError\<close>) and a comma after all but the last.
\<close>

fun error_Error :: "error \<Rightarrow> panic + string"
  and MultiError_elems :: "error list \<Rightarrow> panic + string" where
  "error_Error (TypedErr t) = TypedError_Error t"
| "error_Error (OtherErr s) = Inr s"
| "error_Error (MultiErr m) =
     (case MultiError_elems m of Inl p \<Rightarrow> Inl p | Inr body \<Rightarrow> Inr (''['' @ body @ '']''))"
| "MultiError_elems [] = Inr []"
| "MultiError_elems (e # es) =
     (case error_Error e of
        Inl p \<Rightarrow> Inl p
      | Inr txt0 \<Rightarrow>
          (let txt = (case e of TypedErr _ \<Rightarrow> txt0 | _ \<Rightarrow> [dq] @ txt0 @ [dq])
           in case MultiError_elems es of
                Inl p \<Rightarrow> Inl p
              | Inr rest \<Rightarrow> Inr (txt @ (if es \<noteq> [] then '','' else []) @ rest)))"

definition MultiError_Error :: "error list \<Rightarrow> panic + string" where
  "MultiError_Error m = error_Error (MultiErr m)"

text \<open>\<^verbatim>\<open>func ReportError(err error, err2 error) error\<close>.\<close>

fun ReportError :: "error option \<Rightarrow> error \<Rightarrow> error" where
  "ReportError None err2 = MultiErr [err2]"
| "ReportError (Some (MultiErr merr)) err2 = MultiErr (merr @ [err2])"
| "ReportError (Some err) err2 = MultiErr [err, err2]"

subsection \<open>The construction helpers\<close>

definition InvalidParamTypeError :: "string \<Rightarrow> go_value \<Rightarrow> string \<Rightarrow> error option \<Rightarrow> error" where
  "InvalidParamTypeError name val expected err =
     ReportError err (TypedErr \<lparr>Kind = ErrInvalidParamType,
       Mesg = ''invalid value '' @ fmt_sharp_v val @ '' for parameter '' @ quote name
              @ '', must be a '' @ expected\<rparr>)"

definition MissingParamError :: "string \<Rightarrow> error option \<Rightarrow> error" where
  "MissingParamError name err =
     ReportError err (TypedErr \<lparr>Kind = ErrMissingParam,
       Mesg = ''missing required parameter '' @ quote name\<rparr>)"

definition InvalidAttributeTypeError :: "string \<Rightarrow> go_value \<Rightarrow> string \<Rightarrow> error option \<Rightarrow> error" where
  "InvalidAttributeTypeError ctx val expected err =
     ReportError err (TypedErr \<lparr>Kind = ErrInvalidAttributeType,
       Mesg = ''type of '' @ ctx @ '' must be '' @ expected @ '' but got value ''
              @ fmt_sharp_v val\<rparr>)"

definition MissingAttributeError :: "string \<Rightarrow> string \<Rightarrow> error option \<Rightarrow> error" where
  "MissingAttributeError ctx name err =
     ReportError err (TypedErr \<lparr>Kind = ErrMissingAttribute,
       Mesg = ''attribute '' @ quote name @ '' of '' @ ctx @ '' is missing and required''\<rparr>)"

definition MissingHeaderError :: "string \<Rightarrow> error option \<Rightarrow> error" where
  "MissingHeaderError name err =
     ReportError err (TypedErr \<lparr>Kind = ErrMissingHeader,
       Mesg = ''missing required HTTP header '' @ quote name\<rparr>)"

definition InvalidEnumValueError ::
  "string \<Rightarrow> go_value \<Rightarrow> go_value list \<Rightarrow> error option \<Rightarrow> error" where
  "InvalidEnumValueError ctx val allowed err =
     (let elems = map fmt_sharp_v allowed
      in ReportError err (TypedErr \<lparr>Kind = ErrInvalidEnumValue,
           Mesg = ''value of '' @ ctx @ '' must be one of '' @ join elems '', ''
                  @ '' but got value '' @ fmt_sharp_v val\<rparr>))"

text \<open>
  \<^verbatim>\<open>InvalidFormatError\<close> calls \<^verbatim>\<open>formatError.Error()\<close>: a nil
  \<^verbatim>\<open>formatError\<close> panics, and so does one whose own \<^verbatim>\<open>Error\<close> panics.
  \<^verbatim>\<open>Format\<close> is a string type.
\<close>

definition InvalidFormatError ::
  "string \<Rightarrow> string \<Rightarrow> string \<Rightarrow> error option \<Rightarrow> error option \<Rightarrow> panic + error" where
  "InvalidFormatError ctx target format formatError err =
     (case formatError of
        None \<Rightarrow> Inl NilDereference
      | Some fe \<Rightarrow>
          (case error_Error fe of
             Inl p \<Rightarrow> Inl p
           | Inr txt \<Rightarrow>
               Inr (ReportError err (TypedErr \<lparr>Kind = ErrInvalidFormat,
                 Mesg = ctx @ '' must be formatted as a '' @ format @ '' but got value ''
                        @ quote target @ '', '' @ txt\<rparr>))))"

definition InvalidPatternError :: "string \<Rightarrow> string \<Rightarrow> string \<Rightarrow> error option \<Rightarrow> error" where
  "InvalidPatternError ctx target pattern err =
     ReportError err (TypedErr \<lparr>Kind = ErrInvalidPattern,
       Mesg = ctx @ '' must be match the regexp '' @ quote pattern @ '' but got value ''
              @ quote target\<rparr>)"

definition InvalidRangeError :: "string \<Rightarrow> string \<Rightarrow> int \<Rightarrow> bool \<Rightarrow> error option \<Rightarrow> error" where
  "InvalidRangeError ctx target val is_min err =
     (let comp = (if \<not> is_min then ''lesser or equal to'' else ''greater or equal to'')
      in ReportError err (TypedErr \<lparr>Kind = ErrInvalidRange,
           Mesg = ctx @ '' must be '' @ comp @ '' than '' @ fmt_d val @ '' but got value ''
                  @ quote target\<rparr>))"

definition InvalidLengthError :: "string \<Rightarrow> string \<Rightarrow> int \<Rightarrow> bool \<Rightarrow> error option \<Rightarrow> error" where
  "InvalidLengthError ctx target val is_min err =
     (let comp = (if \<not> is_min then ''lesser or equal to'' else ''greater or equal to'')
      in ReportError err (TypedErr \<lparr>Kind = ErrInvalidRange,
           Mesg = ''length of '' @ ctx @ '' must be '' @ comp @ '' than '' @ fmt_d val
                  @ '' but got value '' @ quote target\<rparr>))"

text \<open>
  The error values built by chaining the helpers from nil: each helper receives nil or
  the value an earlier helper returned.
\<close>

inductive helper_chain :: "error option \<Rightarrow> bool" where
  chain_nil: "helper_chain None"
| chain_InvalidParamType:
    "helper_chain err \<Longrightarrow> helper_chain (Some (InvalidParamTypeError name val expected err))"
| chain_MissingParam:
    "helper_chain err \<Longrightarrow> helper_chain (Some (MissingParamError name err))"
| chain_InvalidAttributeType:
    "helper_chain err \<Longrightarrow> helper_chain (Some (InvalidAttributeTypeError ctx val expected err))"
| chain_MissingAttribute:
    "helper_chain err \<Longrightarrow> helper_chain (Some (MissingAttributeError ctx name err))"
| chain_MissingHeader:
    "helper_chain err \<Longrightarrow> helper_chain (Some (MissingHeaderError name err))"
| chain_InvalidEnumValue:
    "helper_chain err \<Longrightarrow> helper_chain (Some (InvalidEnumValueError ctx val allowed err))"
| chain_InvalidFormat:
    "helper_chain err \<Longrightarrow> InvalidFormatError ctx target format formatError err = Inr e
     \<Longrightarrow> helper_chain (Some e)"
| chain_InvalidPattern:
    "helper_chain err \<Longrightarrow> helper_chain (Some (InvalidPatternError ctx target pattern err))"
| chain_InvalidRange:
    "helper_chain err \<Longrightarrow> helper_chain (Some (InvalidRangeError ctx target val is_min err))"
| chain_InvalidLength:
    "helper_chain err \<Longrightarrow> helper_chain (Some (InvalidLengthError ctx target val is_min err))"

text \<open>A flat accumulator: a \<^verbatim>\<open>MultiError\<close> none of whose elements is a \<^verbatim>\<open>MultiError\<close>.\<close>

fun is_MultiErr :: "error \<Rightarrow> bool" where
  "is_MultiErr (MultiErr _) = True"
| "is_MultiErr _ = False"

fun flat_MultiError :: "error option \<Rightarrow> bool" where
  "flat_MultiError None = True"
| "flat_MultiError (Some (MultiErr m)) = (list_all (\<lambda>e. \<not> is_MultiErr e) m)"
| "flat_MultiError (Some _) = False"


section \<open>design/validation.go: the validation error set\<close>

text \<open>
  \<^verbatim>\<open>ValidationErrors\<close>: two slices filled in step. The recorded errors come from
  \<^verbatim>\<open>fmt.Errorf\<close> and are known by their text; the definitions are values of the
  interface \<^verbatim>\<open>DSLDefinition\<close>.
\<close>

record 'd ValidationErrors =
  Errors :: "string list"
  Definitions :: "'d list"

definition new_ValidationErrors :: "'d ValidationErrors" where
  "new_ValidationErrors = \<lparr>Errors = [], Definitions = []\<rparr>"

text \<open>\<^verbatim>\<open>func (verr *ValidationErrors) Merge(err *ValidationErrors)\<close>.\<close>

definition Merge :: "'d ValidationErrors \<Rightarrow> 'd ValidationErrors \<Rightarrow> 'd ValidationErrors" where
  "Merge verr err =
     verr\<lparr>Errors := Errors verr @ Errors err, Definitions := Definitions verr @ Definitions err\<rparr>"

text \<open>
  \<^verbatim>\<open>func (verr *ValidationErrors) Add(def DSLDefinition, format string, vals ...interface{})\<close>;
  the third argument of the model is the text of \<^verbatim>\<open>fmt.Errorf(format, vals...)\<close>.
\<close>

definition Add :: "'d ValidationErrors \<Rightarrow> 'd \<Rightarrow> string \<Rightarrow> 'd ValidationErrors" where
  "Add verr def msg =
     verr\<lparr>Errors := Errors verr @ [msg], Definitions := Definitions verr @ [def]\<rparr>"

text \<open>\<^verbatim>\<open>func (verr *ValidationErrors) AsError() *ValidationErrors\<close>: nil is \<open>None\<close>.\<close>

definition AsError :: "'d ValidationErrors \<Rightarrow> 'd ValidationErrors option" where
  "AsError verr = (if length (Errors verr) > 0 then Some verr else None)"

text \<open>
  \<^verbatim>\<open>func (verr *ValidationErrors) Error() string\<close>. The loop runs over the indices of
  \<^verbatim>\<open>Errors\<close> and reads \<^verbatim>\<open>Definitions[i]\<close>, which panics when the index is out of
  range. \<^verbatim>\<open>Context\<close> is the method of the definition, declared with the definitions.
\<close>

fun Error_loop :: "('d \<Rightarrow> string) \<Rightarrow> 'd ValidationErrors \<Rightarrow> nat list \<Rightarrow> panic + string list" where
  "Error_loop Context verr [] = Inr []"
| "Error_loop Context verr (i # idx) =
     (if i < length (Definitions verr)
      then (case Error_loop Context verr idx of
              Inl p \<Rightarrow> Inl p
            | Inr msg \<Rightarrow> Inr ((Context (Definitions verr ! i) @ '': '' @ Errors verr ! i) # msg))
      else Inl IndexOutOfRange)"

definition ValidationErrors_Error :: "('d \<Rightarrow> string) \<Rightarrow> 'd ValidationErrors \<Rightarrow> panic + string" where
  "ValidationErrors_Error Context verr =
     (case Error_loop Context verr [0 ..< length (Errors verr)] of
        Inl p \<Rightarrow> Inl p
      | Inr msg \<Rightarrow> Inr (join msg [CHR 0x0A]))"

text \<open>
  The sets built from the empty one by \<^verbatim>\<open>Add\<close> and \<^verbatim>\<open>Merge\<close>, each with the
  sequence of (failure, definition) pairs that went into it, in order.
\<close>

inductive built :: "'d ValidationErrors \<Rightarrow> (string \<times> 'd) list \<Rightarrow> bool" where
  built_new: "built new_ValidationErrors []"
| built_Add: "built verr ps \<Longrightarrow> built (Add verr def msg) (ps @ [(msg, def)])"
| built_Merge: "built verr ps \<Longrightarrow> built err qs \<Longrightarrow> built (Merge verr err) (ps @ qs)"

text \<open>The entries of a set, index by index.\<close>

definition entries :: "'d ValidationErrors \<Rightarrow> (string \<times> 'd) list" where
  "entries verr = zip (Errors verr) (Definitions verr)"

section \<open>design: the specification graph\<close>

text \<open>
  Modelled from the spec: the struct types of package design (the definitions of an API,
  a resource, an action, a route, a response, an attribute, a user type, a media type, a
  link and a view, and the data types) are declared outside the two source files. Each
  record has the fields that \<^verbatim>\<open>validation.go\<close> reads or writes, with the names it
  uses there (prefixed where two structs share a field name), and the relationships of the
  entity table of the specification.

  The definitions reach each other through pointers. Attribute definitions, user types
  and media types live in a heap and are named by their addresses; a nil pointer is
  \<open>None\<close>. The collections a definition owns (the actions of a resource, the responses
  of an action, the views and links of a media type) hold the owned definitions
  themselves, in the order in which the loops of the validator visit them; a Go map is an
  association list with distinct keys.
\<close>

type_synonym addr = nat

datatype Primitive = Boolean | Integer | Number | String

text \<open>
  The interface \<^verbatim>\<open>DataType\<close>: a primitive, \<^verbatim>\<open>*Array\<close> with its element attribute,
  \<^verbatim>\<open>Object\<close> (a map from field names to attribute pointers), \<^verbatim>\<open>*UserTypeDefinition\<close>
  or \<^verbatim>\<open>*MediaTypeDefinition\<close>. The nil interface is \<open>None\<close> of \<open>DataType option\<close>.
\<close>

datatype DataType =
    Primitive Primitive
  | Array "addr option"
  | Object "(string \<times> addr option) list"
  | UserType addr
  | MediaType addr

datatype ValidationDefinition =
    RequiredValidation "string list"   \<comment> \<open>\<^verbatim>\<open>*RequiredValidationDefinition\<close> with its \<^verbatim>\<open>Names\<close>\<close>
  | OtherValidation

record AttributeDefinition =
  Type :: "DataType option"
  Validations :: "ValidationDefinition list"
  View :: string

text \<open>A user type embeds \<^verbatim>\<open>*AttributeDefinition\<close>; a media type embeds a user type.\<close>

record UserTypeDefinition =
  ut_Attribute :: addr
  TypeName :: string

record LinkDefinition =
  link_Name :: string
  link_View :: string
  link_Parent :: "addr option"

record ViewDefinition =
  view_Attribute :: addr
  view_Name :: string
  view_Parent :: "addr option"

record MediaTypeDefinition =
  mt_UserType :: UserTypeDefinition
  Identifier :: string
  Links :: "(string \<times> LinkDefinition) list"
  Views :: "(string \<times> ViewDefinition) list"

record heap =
  attributes :: "addr \<Rightarrow> AttributeDefinition"
  user_types :: "addr \<Rightarrow> UserTypeDefinition"
  media_types :: "addr \<Rightarrow> MediaTypeDefinition"

text \<open>The back references \<^verbatim>\<open>Parent\<close> of routes and actions are only compared with nil.\<close>

record RouteDefinition =
  Verb :: string
  Path :: string
  route_Parent :: "string option"

record ResponseDefinition =
  resp_Name :: string
  Status :: int
  Headers :: "addr option"

record ActionDefinition =
  act_Name :: string
  Routes :: "RouteDefinition list"
  Responses :: "ResponseDefinition list"
  act_Params :: "addr option"
  Payload :: "addr option"               \<comment> \<open>\<^verbatim>\<open>*UserTypeDefinition\<close>\<close>
  act_Parent :: "string option"

record ResourceDefinition =
  res_Name :: string
  BasePath :: string
  CanonicalActionName :: string
  ParentName :: string
  Actions :: "ActionDefinition list"
  res_Responses :: "ResponseDefinition list"
  res_BaseParams :: "addr option"
  res_Params :: "addr option"

record APIDefinition =
  api_Name :: string
  api_BaseParams :: "addr option"
  api_Resources :: "ResourceDefinition list"
  api_MediaTypes :: "addr list"
  api_Types :: "addr list"
  api_Responses :: "ResponseDefinition list"

text \<open>The interface \<^verbatim>\<open>DSLDefinition\<close>: the definition an error is recorded against.\<close>

datatype DSLDefinition =
    APIDef APIDefinition
  | ResourceDef ResourceDefinition
  | ActionDef ActionDefinition
  | RouteDef RouteDefinition
  | ResponseDef ResponseDefinition
  | AttributeDef addr
  | MediaTypeDef addr
  | LinkDef LinkDefinition
  | ViewDef ViewDefinition

type_synonym verrs = "DSLDefinition ValidationErrors"

text \<open>
  What the validator takes from outside the two source files: \<^verbatim>\<open>mime.ParseMediaType\<close>
  (the text of its error, \<open>None\<close> when the identifier parses);
  \<^verbatim>\<open>ParamsRegex.FindAllStringSubmatch(path, -1)\<close> (one list for each match, the match
  first and its groups after it); the names registered in \<^verbatim>\<open>Design.Resources\<close>; and
  the text \<^verbatim>\<open>fmt\<close> appends for an argument that no verb of the format consumes.
\<close>

record env =
  ParseMediaType :: "string \<Rightarrow> string option"
  FindAllStringSubmatch :: "string \<Rightarrow> string list list"
  Design_Resources :: "string list"
  fmt_EXTRA :: "ResourceDefinition \<Rightarrow> string"

subsection \<open>Results, panics and fuel\<close>

type_synonym 'a res = "(panic + 'a) option"

abbreviation Ok :: "'a \<Rightarrow> 'a res" where "Ok x \<equiv> Some (Inr x)"
abbreviation Panic :: "panic \<Rightarrow> 'a res" where "Panic p \<equiv> Some (Inl p)"

definition bind :: "'a res \<Rightarrow> ('a \<Rightarrow> 'b res) \<Rightarrow> 'b res" where
  "bind m f = (case m of None \<Rightarrow> None | Some (Inl p) \<Rightarrow> Panic p | Some (Inr x) \<Rightarrow> f x)"

text \<open>A \<^verbatim>\<open>for ... range\<close> loop whose body may panic: the state is threaded through.\<close>

fun for_each :: "('x \<Rightarrow> 's \<Rightarrow> 's res) \<Rightarrow> 'x list \<Rightarrow> 's \<Rightarrow> 's res" where
  "for_each body [] s = Ok s"
| "for_each body (x # xs) s = bind (body x s) (for_each body xs)"

text \<open>\<^verbatim>\<open>if err := ...; err != nil { verr.Merge(err) }\<close>.\<close>

definition Merge_if :: "verrs \<Rightarrow> verrs option \<Rightarrow> verrs" where
  "Merge_if verr err = (case err of None \<Rightarrow> verr | Some e \<Rightarrow> Merge verr e)"

subsection \<open>The methods of DataType\<close>

text \<open>
  Modelled from the spec: the methods \<^verbatim>\<open>Kind\<close>, \<^verbatim>\<open>IsArray\<close>, \<^verbatim>\<open>ToArray\<close> and
  \<^verbatim>\<open>ToObject\<close> of the data types are declared outside the two source files. A user
  type wraps one attribute and a media type extends a user type, so a named type answers
  \<^verbatim>\<open>ToObject\<close>, \<^verbatim>\<open>ToArray\<close> and \<^verbatim>\<open>IsArray\<close> with the answer of the type of its
  attribute; each such step takes one unit of fuel. A method called on the nil interface
  panics. \<^verbatim>\<open>Kind\<close> is \<^verbatim>\<open>ObjectKind\<close> for an \<^verbatim>\<open>Object\<close> only.
\<close>

fun DataType_ToObject :: "nat \<Rightarrow> heap \<Rightarrow> DataType option \<Rightarrow> (string \<times> addr option) list option res" where
  "DataType_ToObject n h None = Panic NilDereference"
| "DataType_ToObject n h (Some (Primitive p)) = Ok None"
| "DataType_ToObject n h (Some (Array e)) = Ok None"
| "DataType_ToObject n h (Some (Object obj)) = Ok (Some obj)"
| "DataType_ToObject 0 h (Some (UserType u)) = None"
| "DataType_ToObject (Suc n) h (Some (UserType u)) =
     DataType_ToObject n h (Type (attributes h (ut_Attribute (user_types h u))))"
| "DataType_ToObject 0 h (Some (MediaType m)) = None"
| "DataType_ToObject (Suc n) h (Some (MediaType m)) =
     DataType_ToObject n h (Type (attributes h (ut_Attribute (mt_UserType (media_types h m)))))"

text \<open>\<^verbatim>\<open>ToArray\<close>: nil (\<open>None\<close>) or the array, given by its \<^verbatim>\<open>ElemType\<close> pointer.\<close>

fun DataType_ToArray :: "nat \<Rightarrow> heap \<Rightarrow> DataType option \<Rightarrow> addr option option res" where
  "DataType_ToArray n h None = Panic NilDereference"
| "DataType_ToArray n h (Some (Primitive p)) = Ok None"
| "DataType_ToArray n h (Some (Array e)) = Ok (Some e)"
| "DataType_ToArray n h (Some (Object obj)) = Ok None"
| "DataType_ToArray 0 h (Some (UserType u)) = None"
| "DataType_ToArray (Suc n) h (Some (UserType u)) =
     DataType_ToArray n h (Type (attributes h (ut_Attribute (user_types h u))))"
| "DataType_ToArray 0 h (Some (MediaType m)) = None"
| "DataType_ToArray (Suc n) h (Some (MediaType m)) =
     DataType_ToArray n h (Type (attributes h (ut_Attribute (mt_UserType (media_types h m)))))"

fun DataType_IsArray :: "nat \<Rightarrow> heap \<Rightarrow> DataType option \<Rightarrow> bool res" where
  "DataType_IsArray n h None = Panic NilDereference"
| "DataType_IsArray n h (Some (Primitive p)) = Ok False"
| "DataType_IsArray n h (Some (Array e)) = Ok True"
| "DataType_IsArray n h (Some (Object obj)) = Ok False"
| "DataType_IsArray 0 h (Some (UserType u)) = None"
| "DataType_IsArray (Suc n) h (Some (UserType u)) =
     DataType_IsArray n h (Type (attributes h (ut_Attribute (user_types h u))))"
| "DataType_IsArray 0 h (Some (MediaType m)) = None"
| "DataType_IsArray (Suc n) h (Some (MediaType m)) =
     DataType_IsArray n h (Type (attributes h (ut_Attribute (mt_UserType (media_types h m)))))"

fun is_Object :: "DataType \<Rightarrow> bool" where
  "is_Object (Object obj) = True"
| "is_Object _ = False"

text \<open>The type assertion \<^verbatim>\<open>o, isObject := t.(Object)\<close>: a nil map when it fails.\<close>

fun as_Object :: "DataType option \<Rightarrow> (string \<times> addr option) list \<times> bool" where
  "as_Object (Some (Object obj)) = (obj, True)"
| "as_Object _ = ([], False)"

text \<open>The type assertion \<^verbatim>\<open>m, ok := t.(*MediaTypeDefinition)\<close>: the nil pointer when it fails.\<close>

fun as_MediaType :: "DataType option \<Rightarrow> addr option" where
  "as_MediaType (Some (MediaType m)) = Some m"
| "as_MediaType _ = None"


section \<open>design/validation.go: the validators\<close>

subsection \<open>AttributeDefinition.Validate\<close>

text \<open>The inner loop over \<^verbatim>\<open>r.Names\<close> and the loop over \<^verbatim>\<open>a.Validations\<close>.\<close>

definition required_names ::
  "verrs \<Rightarrow> DSLDefinition \<Rightarrow> string \<Rightarrow> (string \<times> addr option) list \<Rightarrow> string list \<Rightarrow> verrs" where
  "required_names verr parent ctx obj names =
     foldl (\<lambda>verr nm.
              if nm \<in> set (map fst obj) then verr
              else Add verr parent
                     (ctx @ ''required field '' @ [dq] @ nm @ [dq] @ '' does not exist''))
           verr names"

definition check_validation ::
  "DSLDefinition \<Rightarrow> string \<Rightarrow> (string \<times> addr option) list \<Rightarrow> bool
     \<Rightarrow> verrs \<Rightarrow> ValidationDefinition \<Rightarrow> verrs" where
  "check_validation parent ctx obj isObject verr v =
     (case v of
        RequiredValidation names \<Rightarrow>
          required_names
            (if \<not> isObject
             then Add verr parent
                    (ctx @ ''only objects may define a '' @ [dq] @ ''Required'' @ [dq]
                     @ '' validation'')
             else verr)
            parent ctx obj names
      | OtherValidation \<Rightarrow> verr)"

definition check_validations ::
  "verrs \<Rightarrow> DSLDefinition \<Rightarrow> string \<Rightarrow> (string \<times> addr option) list \<Rightarrow> bool
     \<Rightarrow> ValidationDefinition list \<Rightarrow> verrs" where
  "check_validations verr parent ctx obj isObject vs =
     foldl (check_validation parent ctx obj isObject) verr vs"

text \<open>The context after \<^verbatim>\<open>if ctx != "" { ctx += " - " }\<close>.\<close>

abbreviation (input) ctx_dash :: "string \<Rightarrow> string" where
  "ctx_dash ctx \<equiv> (if ctx \<noteq> [] then ctx @ '' - '' else ctx)"

text \<open>
  \<^verbatim>\<open>func (a *AttributeDefinition) Validate(ctx string, parent DSLDefinition)\<close>. The
  receiver is a pointer: on nil, reading \<^verbatim>\<open>a.Type\<close> panics. Each call on an
  attribute takes one unit of fuel.
\<close>

fun AttributeDefinition_Validate ::
  "nat \<Rightarrow> heap \<Rightarrow> string \<Rightarrow> DSLDefinition \<Rightarrow> addr option \<Rightarrow> verrs option res" where
  "AttributeDefinition_Validate n h ctx parent None = Panic NilDereference"
| "AttributeDefinition_Validate 0 h ctx parent (Some a) = None"
| "AttributeDefinition_Validate (Suc n) h ctx parent (Some a) =
     (let verr = new_ValidationErrors; t = Type (attributes h a)
      in if t = None then Ok (Some (Add verr parent ''attribute type is nil''))
         else
           let ctx = (if ctx \<noteq> [] then ctx @ '' - '' else ctx);
               (obj, isObject) = as_Object t;
               verr = check_validations verr parent ctx obj isObject (Validations (attributes h a))
           in if isObject then
                bind (for_each
                        (\<lambda>(nm, att) verr.
                           bind (AttributeDefinition_Validate n h (''field '' @ nm) (AttributeDef a) att)
                                (\<lambda>err. Ok (Merge_if verr err)))
                        obj verr)
                     (\<lambda>verr. Ok (AsError verr))
              else
                bind (DataType_IsArray n h t)
                  (\<lambda>isArray.
                     if isArray then
                       bind (DataType_ToArray n h t)
                         (\<lambda>arr. case arr of
                                   None \<Rightarrow> Panic NilDereference
                                 | Some elemType \<Rightarrow>
                                     bind (AttributeDefinition_Validate n h ctx (AttributeDef a) elemType)
                                          (\<lambda>err. Ok (AsError (Merge_if verr err))))
                     else Ok (AsError verr)))"

subsection \<open>Responses, routes, user types, views and links\<close>

definition ResponseDefinition_Validate :: "nat \<Rightarrow> heap \<Rightarrow> ResponseDefinition \<Rightarrow> verrs option res" where
  "ResponseDefinition_Validate n h r =
     (let verr = new_ValidationErrors
      in bind (case Headers r of
                 None \<Rightarrow> Ok verr
               | Some hdrs \<Rightarrow>
                   bind (AttributeDefinition_Validate n h ''response headers'' (ResponseDef r) (Some hdrs))
                        (\<lambda>err. Ok (Merge_if verr err)))
           (\<lambda>verr.
              let verr = (if Status r = 0
                          then Add verr (ResponseDef r) ''response status not defined'' else verr)
              in Ok (AsError verr)))"

definition RouteDefinition_Validate :: "RouteDefinition \<Rightarrow> verrs option" where
  "RouteDefinition_Validate r =
     (let verr = new_ValidationErrors;
          verr = (if route_Parent r = None
                  then Add verr (RouteDef r) ''missing route parent action'' else verr)
      in AsError verr)"

definition UserTypeDefinition_Validate ::
  "nat \<Rightarrow> heap \<Rightarrow> string \<Rightarrow> DSLDefinition \<Rightarrow> UserTypeDefinition \<Rightarrow> verrs option res" where
  "UserTypeDefinition_Validate n h ctx parent u =
     (let verr = new_ValidationErrors;
          verr = (if TypeName u = []
                  then Add verr parent (ctx @ '' - '' @ ''User type must have a name'') else verr)
      in bind (AttributeDefinition_Validate n h ctx parent (Some (ut_Attribute u)))
           (\<lambda>err. Ok (AsError (Merge_if verr err))))"

definition ViewDefinition_Validate :: "nat \<Rightarrow> heap \<Rightarrow> ViewDefinition \<Rightarrow> verrs option res" where
  "ViewDefinition_Validate n h v =
     (let verr = new_ValidationErrors;
          verr = (if view_Parent v = None
                  then Add verr (ViewDef v) ''View must have a parent media type'' else verr)
      in bind (AttributeDefinition_Validate n h [] (ViewDef v) (Some (view_Attribute v)))
           (\<lambda>err. Ok (AsError (Merge_if verr err))))"

text \<open>
  \<^verbatim>\<open>func (l *LinkDefinition) Validate()\<close>. After recording a nil parent the code calls
  \<^verbatim>\<open>l.Parent.ToObject()\<close>, a method promoted from the embedded user type, which
  dereferences the parent. After recording that the attribute's type is not a media type
  it ranges over \<^verbatim>\<open>mediaType.Views\<close> with \<^verbatim>\<open>mediaType\<close> nil. The attribute found in
  the parent's object is a pointer, read for its \<^verbatim>\<open>Type\<close>.
\<close>

definition LinkDefinition_Validate :: "nat \<Rightarrow> heap \<Rightarrow> LinkDefinition \<Rightarrow> verrs option res" where
  "LinkDefinition_Validate n h l =
     (let verr = new_ValidationErrors;
          verr = (if link_Name l = [] then Add verr (LinkDef l) ''Links must have a name'' else verr);
          verr = (if link_Parent l = None
                  then Add verr (LinkDef l) ''Link must have a parent media type'' else verr)
      in case link_Parent l of
           None \<Rightarrow> Panic NilDereference
         | Some parent \<Rightarrow>
             bind (DataType_ToObject n h (Some (MediaType parent)))
               (\<lambda>obj.
                  let verr = (if obj = None
                              then Add verr (LinkDef l) ''Link parent media type must be an Object''
                              else verr)
                  in bind (DataType_ToObject n h (Some (MediaType parent)))
                       (\<lambda>obj.
                          case map_of (case obj of None \<Rightarrow> [] | Some ob \<Rightarrow> ob) (link_Name l) of
                            None \<Rightarrow>
                              Ok (AsError (Add verr (LinkDef l)
                                ''Link name must match one of the parent media type attribute names''))
                          | Some None \<Rightarrow> Panic NilDereference
                          | Some (Some att) \<Rightarrow>
                              (case as_MediaType (Type (attributes h att)) of
                                 None \<Rightarrow> Panic NilDereference
                               | Some mediaType \<Rightarrow>
                                   (let viewFound =
                                          (link_View l \<in> set (map fst (Views (media_types h mediaType))));
                                        verr = (if \<not> viewFound
                                                then Add verr (LinkDef l)
                                                       (''view '' @ quote (link_View l)
                                                        @ '' does not exist on target media type ''
                                                        @ quote (Identifier (media_types h mediaType)))
                                                else verr)
                                    in Ok (AsError verr))))))"

subsection \<open>MediaTypeDefinition.Validate\<close>

text \<open>
  The one validator that writes: \<^verbatim>\<open>m.Identifier\<close>, a field of the media type, and
  \<^verbatim>\<open>m.Type\<close>, the field of the attribute the embedded user type points to. It returns
  the heap with the result.
\<close>

definition default_Identifier :: "heap \<Rightarrow> addr \<Rightarrow> heap" where
  "default_Identifier h m =
     h\<lparr>media_types := (media_types h)(m := (media_types h m)\<lparr>Identifier := ''plain/text''\<rparr>)\<rparr>"

definition default_Type :: "heap \<Rightarrow> addr \<Rightarrow> heap" where
  "default_Type h a =
     h\<lparr>attributes := (attributes h)(a := (attributes h a)\<lparr>Type := Some (Primitive String)\<rparr>)\<rparr>"

text \<open>The body of the loop over the attributes of the media type's object.\<close>

definition MediaType_attribute ::
  "nat \<Rightarrow> heap \<Rightarrow> addr \<Rightarrow> string \<times> addr option \<Rightarrow> verrs \<Rightarrow> verrs res" where
  "MediaType_attribute n h m = (\<lambda>(nm, att) verr.
     bind (AttributeDefinition_Validate n h (''attribute '' @ nm) (MediaTypeDef m) att)
       (\<lambda>err.
          let verr = Merge_if verr err
          in case att of
               None \<Rightarrow> Panic NilDereference
             | Some a \<Rightarrow>
                 if View (attributes h a) \<noteq> [] then
                   (case as_MediaType (Type (attributes h a)) of
                      None \<Rightarrow> Panic NilDereference
                    | Some cmt \<Rightarrow>
                        Ok (if map_of (Views (media_types h cmt)) (View (attributes h a)) = None
                            then Add verr (MediaTypeDef m)
                                   (''attribute '' @ nm @ '' of media type uses unknown view ''
                                    @ quote (View (attributes h a)))
                            else verr))
                 else Ok verr))"

text \<open>
  The two defaults, in the order of the source: the identifier when it is empty, then the
  type when it is nil.
\<close>

definition MediaType_defaults :: "heap \<Rightarrow> addr \<Rightarrow> heap" where
  "MediaType_defaults h m =
     (let h = (if Identifier (media_types h m) \<noteq> [] then h else default_Identifier h m);
          a = ut_Attribute (mt_UserType (media_types h m))
      in if Type (attributes h a) = None then default_Type h a else h)"

text \<open>
  The block that finds \<^verbatim>\<open>obj\<close>: the object of the element type when the media type is
  an array whose element validates, else the object of the media type.
\<close>

definition MediaType_object ::
  "nat \<Rightarrow> heap \<Rightarrow> addr \<Rightarrow> verrs \<Rightarrow> (verrs \<times> (string \<times> addr option) list option) res" where
  "MediaType_object n h m verr =
     (let a = ut_Attribute (mt_UserType (media_types h m))
      in bind (DataType_ToArray n h (Type (attributes h a)))
           (\<lambda>arr.
              case arr of
                Some None \<Rightarrow> Ok (Add verr (MediaTypeDef m) ''array element type is nil'', None)
              | Some (Some elemType) \<Rightarrow>
                  bind (AttributeDefinition_Validate n h ''array element'' (MediaTypeDef m)
                          (Some elemType))
                    (\<lambda>err. case err of
                              Some e \<Rightarrow> Ok (Merge verr e, None)
                            | None \<Rightarrow>
                                bind (DataType_ToObject n h (Type (attributes h elemType)))
                                  (\<lambda>obj. Ok (verr, obj)))
              | None \<Rightarrow>
                  bind (DataType_ToObject n h (Type (attributes h a)))
                    (\<lambda>obj. Ok (verr, obj))))"

definition MediaTypeDefinition_Validate ::
  "env \<Rightarrow> nat \<Rightarrow> heap \<Rightarrow> addr \<Rightarrow> (heap \<times> verrs option) res" where
  "MediaTypeDefinition_Validate E n h m =
     (let verr = new_ValidationErrors
      in bind (UserTypeDefinition_Validate n h [] (MediaTypeDef m) (mt_UserType (media_types h m)))
           (\<lambda>err.
              let verr = Merge_if verr err;
                  verr = (if Identifier (media_types h m) \<noteq> [] then
                            (case ParseMediaType E (Identifier (media_types h m)) of
                               Some e \<Rightarrow> Add verr (MediaTypeDef m) (''invalid media type identifier: '' @ e)
                             | None \<Rightarrow> verr)
                          else verr);
                  h = MediaType_defaults h m
              in bind (MediaType_object n h m verr)
                   (\<lambda>(verr, obj).
                      bind (case obj of
                              None \<Rightarrow> Ok verr
                            | Some ob \<Rightarrow> for_each (MediaType_attribute n h m) ob verr)
                        (\<lambda>verr.
                           bind (for_each
                                   (\<lambda>(nm, v) verr.
                                      bind (ViewDefinition_Validate n h v)
                                           (\<lambda>err. Ok (Merge_if verr err)))
                                   (Views (media_types h m)) verr)
                             (\<lambda>verr.
                                bind (for_each
                                        (\<lambda>(nm, l) verr.
                                           bind (LinkDefinition_Validate n h l)
                                                (\<lambda>err. Ok (Merge_if verr err)))
                                        (Links (media_types h m)) verr)
                                  (\<lambda>verr. Ok (h, AsError verr)))))))"

subsection \<open>ActionDefinition.Validate and ValidateParams\<close>

text \<open>The body of the loop over the parameters of an action.\<close>

definition Action_parameter ::
  "nat \<Rightarrow> heap \<Rightarrow> ActionDefinition \<Rightarrow> string \<times> addr option \<Rightarrow> verrs \<Rightarrow> verrs res" where
  "Action_parameter n h a = (\<lambda>(nm, p) verr.
     let verr =
           (if nm = [] then Add verr (ActionDef a) ''action has parameter with no name''
            else if p = None
              then Add verr (ActionDef a) (''definition of parameter '' @ nm @ '' cannot be nil'')
            else if Type (attributes h (the p)) = None
              then Add verr (ActionDef a) (''type of parameter '' @ nm @ '' cannot be nil'')
            else verr)
     in case p of
          None \<Rightarrow> Panic NilDereference
        | Some pa \<Rightarrow>
            (case Type (attributes h pa) of
               None \<Rightarrow> Panic NilDereference
             | Some t \<Rightarrow>
                 (let verr =
                        (if is_Object t
                         then Add verr (ActionDef a)
                                (''parameter '' @ nm
                                 @ '' cannot be an object, only action payloads may be of type object'')
                         else verr);
                      ctx = ''parameter '' @ nm
                  in bind (AttributeDefinition_Validate n h ctx (ActionDef a) (Some pa))
                       (\<lambda>err. Ok (Merge_if verr err)))))"

definition ActionDefinition_ValidateParams ::
  "nat \<Rightarrow> heap \<Rightarrow> ActionDefinition \<Rightarrow> verrs option res" where
  "ActionDefinition_ValidateParams n h a =
     (let verr = new_ValidationErrors
      in case act_Params a of
           None \<Rightarrow> Ok None
         | Some ps \<Rightarrow>
             (let (params, ok) = as_Object (Type (attributes h ps));
                  verr = (if \<not> ok
                          then Add verr (ActionDef a)
                                 ([dq] @ ''Params'' @ [dq] @ '' field of action is not an object'')
                          else verr)
              in bind (for_each (Action_parameter n h a) params verr)
                   (\<lambda>verr.
                      bind (for_each
                              (\<lambda>resp verr.
                                 bind (ResponseDefinition_Validate n h resp)
                                      (\<lambda>err. Ok (Merge_if verr err)))
                              (Responses a) verr)
                        (\<lambda>verr. Ok (AsError verr)))))"

text \<open>
  The inner loop of the check for duplicate status codes: response \<open>r\<close> at index \<open>i\<close>
  against every response \<open>r2\<close> at index \<open>j\<close>.
\<close>

definition duplicate_status_msg :: "int \<Rightarrow> string" where
  "duplicate_status_msg s = ''Multiple response definitions with status code '' @ fmt_d s"

definition duplicate_statuses ::
  "ResponseDefinition list \<Rightarrow> nat \<Rightarrow> ResponseDefinition \<Rightarrow> verrs \<Rightarrow> verrs" where
  "duplicate_statuses rs i r verr =
     foldl (\<lambda>verr (j, r2).
              if i \<noteq> j \<and> Status r = Status r2
              then Add verr (ResponseDef r) (duplicate_status_msg (Status r))
              else verr)
           verr (enumerate 0 rs)"

definition ActionDefinition_Validate :: "nat \<Rightarrow> heap \<Rightarrow> ActionDefinition \<Rightarrow> verrs option res" where
  "ActionDefinition_Validate n h a =
     (let verr = new_ValidationErrors;
          verr = (if act_Name a = []
                  then Add verr (ActionDef a) ''Action name cannot be empty'' else verr);
          verr = (if length (Routes a) = 0
                  then Add verr (ActionDef a) ''No route defined for action'' else verr)
      in bind (for_each
                 (\<lambda>(i, r) verr.
                    let verr = duplicate_statuses (Responses a) i r verr
                    in bind (ResponseDefinition_Validate n h r)
                            (\<lambda>err. Ok (Merge_if verr err)))
                 (enumerate 0 (Responses a)) verr)
           (\<lambda>verr.
              bind (ActionDefinition_ValidateParams n h a)
                (\<lambda>err.
                   let verr = Merge_if verr err
                   in bind (case Payload a of
                              None \<Rightarrow> Ok verr
                            | Some p \<Rightarrow>
                                bind (UserTypeDefinition_Validate n h ''action payload'' (ActionDef a)
                                        (user_types h p))
                                     (\<lambda>err. Ok (Merge_if verr err)))
                        (\<lambda>verr.
                           let verr = (if act_Parent a = None
                                       then Add verr (ActionDef a) ''missing parent resource''
                                       else verr)
                           in Ok (AsError verr)))))"

subsection \<open>ResourceDefinition.Validate\<close>

text \<open>
  The block on \<^verbatim>\<open>r.BaseParams\<close>. \<^verbatim>\<open>vars := vs[1]\<close> is the second match of the
  regular expression; \<^verbatim>\<open>vars[:len(vars)-1]\<close> panics on an empty \<^verbatim>\<open>vars\<close>.
\<close>

definition unmatched_variables ::
  "ResourceDefinition \<Rightarrow> (string \<times> addr option) list \<Rightarrow> string list \<Rightarrow> verrs \<Rightarrow> verrs" where
  "unmatched_variables r baseParams vars verr =
     foldl (\<lambda>verr v.
              if v \<in> set (map fst baseParams) then verr
              else Add verr (ResourceDef r)
                     (''Variable '' @ v @ '' from base path '' @ BasePath r
                      @ '' does not match any parameter from BaseParams''))
           verr vars"

definition Resource_BaseParams :: "env \<Rightarrow> heap \<Rightarrow> ResourceDefinition \<Rightarrow> verrs \<Rightarrow> verrs res" where
  "Resource_BaseParams E h r verr =
     (case res_BaseParams r of
        None \<Rightarrow> Ok verr
      | Some bp \<Rightarrow>
          (let (baseParams, ok) = as_Object (Type (attributes h bp))
           in if \<not> ok
              then Ok (Add verr (ResourceDef r)
                         (''invalid type for BaseParams, must be an Object'' @ fmt_EXTRA E r))
              else
                let vs = FindAllStringSubmatch E (BasePath r)
                in if length vs > 1 then
                     (let vars = vs ! 1
                      in bind (if length vars \<noteq> length baseParams then
                                 (if vars = [] then Panic IndexOutOfRange
                                  else Ok (Add verr (ResourceDef r)
                                         (''BasePath defines parameters ''
                                          @ join [join (butlast vars) '', '', last vars] '' and ''
                                          @ '' but BaseParams has '' @ fmt_d (int (length baseParams))
                                          @ '' elements'')))
                               else Ok verr)
                           (\<lambda>verr. Ok (unmatched_variables r baseParams vars verr)))
                   else
                     Ok (if length baseParams > 0
                         then Add verr (ResourceDef r)
                                ''BasePath does not use variables defines in BaseParams''
                         else verr)))"

definition ResourceDefinition_Validate ::
  "env \<Rightarrow> nat \<Rightarrow> heap \<Rightarrow> ResourceDefinition \<Rightarrow> verrs option res" where
  "ResourceDefinition_Validate E n h r =
     (let verr = new_ValidationErrors;
          verr = (if res_Name r = []
                  then Add verr (ResourceDef r) ''Resource name cannot be empty'' else verr)
      in bind (for_each
                 (\<lambda>a verr. bind (ActionDefinition_Validate n h a) (\<lambda>err. Ok (Merge_if verr err)))
                 (Actions r) verr)
           (\<lambda>verr.
              let found = (CanonicalActionName r \<in> set (map act_Name (Actions r)));
                  verr = (if CanonicalActionName r \<noteq> [] \<and> \<not> found
                          then Add verr (ResourceDef r)
                                 (''unknown canonical action '' @ [dq] @ CanonicalActionName r @ [dq])
                          else verr)
              in bind (Resource_BaseParams E h r verr)
                   (\<lambda>verr.
                      let verr = (if ParentName r \<noteq> [] \<and> ParentName r \<notin> set (Design_Resources E)
                                  then Add verr (ResourceDef r)
                                         (''Parent resource named '' @ quote (ParentName r)
                                          @ '' not found'')
                                  else verr)
                      in bind (for_each
                                 (\<lambda>resp verr.
                                    bind (ResponseDefinition_Validate n h resp)
                                         (\<lambda>err. Ok (Merge_if verr err)))
                                 (res_Responses r) verr)
                           (\<lambda>verr.
                              bind (case res_Params r of
                                      None \<Rightarrow> Ok verr
                                    | Some ps \<Rightarrow>
                                        bind (AttributeDefinition_Validate n h ''resource parameters''
                                                (ResourceDef r) (Some ps))
                                             (\<lambda>err. Ok (Merge_if verr err)))
                                (\<lambda>verr. Ok (AsError verr))))))"

subsection \<open>APIDefinition.Validate\<close>

text \<open>
  The loop over the media types threads the heap, which each
  \<^verbatim>\<open>MediaTypeDefinition.Validate\<close> may write; the loops after it read the heap it
  leaves. \<^verbatim>\<open>a.BaseParams.Validate\<close> is called without a test for nil.
\<close>

definition APIDefinition_Validate ::
  "env \<Rightarrow> nat \<Rightarrow> heap \<Rightarrow> APIDefinition \<Rightarrow> (heap \<times> verrs option) res" where
  "APIDefinition_Validate E n h a =
     (let verr = new_ValidationErrors
      in bind (AttributeDefinition_Validate n h ''base parameters'' (APIDef a) (api_BaseParams a))
           (\<lambda>err.
              let verr = Merge_if verr err
              in bind (for_each
                         (\<lambda>r verr. bind (ResourceDefinition_Validate E n h r)
                                         (\<lambda>err. Ok (Merge_if verr err)))
                         (api_Resources a) verr)
                   (\<lambda>verr.
                      bind (for_each
                              (\<lambda>mt (h, verr).
                                 bind (MediaTypeDefinition_Validate E n h mt)
                                      (\<lambda>(h, err). Ok (h, Merge_if verr err)))
                              (api_MediaTypes a) (h, verr))
                        (\<lambda>(h, verr).
                           bind (for_each
                                   (\<lambda>t verr.
                                      bind (UserTypeDefinition_Validate n h [] (APIDef a) (user_types h t))
                                           (\<lambda>err. Ok (Merge_if verr err)))
                                   (api_Types a) verr)
                             (\<lambda>verr.
                                bind (for_each
                                        (\<lambda>r verr.
                                           bind (ResponseDefinition_Validate n h r)
                                                (\<lambda>err. Ok (Merge_if verr err)))
                                        (api_Responses a) verr)
                                  (\<lambda>verr. Ok (h, AsError verr)))))))"

text \<open>
  Modelled from the spec: the variable \<^verbatim>\<open>ParamsRegex\<close> is declared outside the two
  source files. The specification writes a path variable between braces, as in
  \<^verbatim>\<open>/things/{id}\<close>: a match is an opening brace, the name, and the next closing brace,
  and its one group is the name.
\<close>

fun brace_matches :: "string option \<Rightarrow> string \<Rightarrow> string list list" where
  "brace_matches cur [] = []"
| "brace_matches None (c # cs) =
     (if c = CHR ''{'' then brace_matches (Some []) cs else brace_matches None cs)"
| "brace_matches (Some v) (c # cs) =
     (if c = CHR ''}'' \<and> v \<noteq> [] then [''{'' @ v @ ''}'', v] # brace_matches None cs
      else brace_matches (Some (v @ [c])) cs)"

definition ParamsRegex_FindAllStringSubmatch :: "string \<Rightarrow> string list list" where
  "ParamsRegex_FindAllStringSubmatch path = brace_matches None path"

subsection \<open>The shape of a specification graph\<close>

text \<open>
  The attributes an attribute contains: the fields of its object, the element of its
  array, and the attribute of the user type or media type that is its type.
\<close>

fun children_of :: "heap \<Rightarrow> DataType option \<Rightarrow> addr list" where
  "children_of h None = []"
| "children_of h (Some (Primitive p)) = []"
| "children_of h (Some (Array e)) = (case e of None \<Rightarrow> [] | Some c \<Rightarrow> [c])"
| "children_of h (Some (Object obj)) = concat (map (\<lambda>(nm, att). case att of None \<Rightarrow> [] | Some c \<Rightarrow> [c]) obj)"
| "children_of h (Some (UserType u)) = [ut_Attribute (user_types h u)]"
| "children_of h (Some (MediaType m)) = [ut_Attribute (mt_UserType (media_types h m))]"

definition contains :: "heap \<Rightarrow> (addr \<times> addr) set" where
  "contains h = {(a, c). c \<in> set (children_of h (Type (attributes h a)))}"


subsection \<open>What a validator reports\<close>

text \<open>
  The (failure, definition) pairs of a returned set; nothing when the validator returns
  nil, panics or does not return.
\<close>

definition reported :: "verrs option res \<Rightarrow> (string \<times> DSLDefinition) list" where
  "reported r = (case r of Some (Inr (Some v)) \<Rightarrow> entries v | _ \<Rightarrow> [])"

text \<open>The messages reported.\<close>

definition failures :: "verrs option res \<Rightarrow> string list" where
  "failures r = map fst (reported r)"

text \<open>The two slices of a set have the same length.\<close>

definition paired :: "verrs \<Rightarrow> bool" where
  "paired v = (length (Errors v) = length (Definitions v))"

definition paired_opt :: "verrs option \<Rightarrow> bool" where
  "paired_opt err = (case err of None \<Rightarrow> True | Some v \<Rightarrow> paired v)"

text \<open>
  The duplicate-status failure is the one message of the action validator that begins
  with \<^verbatim>\<open>Multiple response definitions with status code\<close>; no other message of the
  validators of actions, responses and attributes begins with the letter M.
\<close>

definition is_duplicate_status :: "string \<Rightarrow> bool" where
  "is_duplicate_status msg = (take 47 msg = ''Multiple response definitions with status code '')"

definition noM :: "string \<Rightarrow> bool" where
  "noM msg = (msg = [] \<or> hd msg \<noteq> CHR ''M'')"

definition tidy :: "verrs \<Rightarrow> bool" where
  "tidy v = (paired v \<and> list_all noM (Errors v))"

definition tidy_opt :: "verrs option \<Rightarrow> bool" where
  "tidy_opt err = (case err of None \<Rightarrow> True | Some v \<Rightarrow> tidy v)"

text \<open>
  A set none of whose entries is recorded against a response: what the validators of
  attributes, parameters and payloads return when their parent is not a response.
\<close>

fun is_ResponseDef :: "DSLDefinition \<Rightarrow> bool" where
  "is_ResponseDef (ResponseDef r) = True"
| "is_ResponseDef _ = False"

definition aside :: "verrs \<Rightarrow> bool" where
  "aside v = list_all (\<lambda>d. \<not> is_ResponseDef d) (Definitions v)"

definition aside_opt :: "verrs option \<Rightarrow> bool" where
  "aside_opt err = (case err of None \<Rightarrow> True | Some v \<Rightarrow> aside v)"

text \<open>What the inner loop of the duplicate check adds for response \<open>r\<close> at index \<open>i\<close>.\<close>

definition duplicate_pairs ::
  "ResponseDefinition list \<Rightarrow> nat \<Rightarrow> ResponseDefinition \<Rightarrow> (string \<times> DSLDefinition) list" where
  "duplicate_pairs rs i r =
     map (\<lambda>jr. (duplicate_status_msg (Status r), ResponseDef r))
       (filter (\<lambda>(j, r2). i \<noteq> j \<and> Status r = Status r2) (enumerate 0 rs))"

text \<open>
  The ordered pairs of distinct indices of responses with equal status, the first index
  running in the outer loop.
\<close>

definition status_pairs :: "ResponseDefinition list \<Rightarrow> (nat \<times> nat) list" where
  "status_pairs rs =
     filter (\<lambda>(i, j). i \<noteq> j \<and> Status (rs ! i) = Status (rs ! j))
       (List.product [0 ..< length rs] [0 ..< length rs])"

subsection \<open>Example designs\<close>

definition empty_heap :: heap where
  "empty_heap =
     \<lparr>attributes = (\<lambda>a. \<lparr>Type = None, Validations = [], View = []\<rparr>),
      user_types = (\<lambda>u. \<lparr>ut_Attribute = 0, TypeName = []\<rparr>),
      media_types = (\<lambda>m. \<lparr>mt_UserType = \<lparr>ut_Attribute = 0, TypeName = []\<rparr>, Identifier = [],
                            Links = [], Views = []\<rparr>)\<rparr>"

text \<open>An attribute cell with the given type and nothing else.\<close>

definition attribute_of :: "DataType \<Rightarrow> AttributeDefinition" where
  "attribute_of t = \<lparr>Type = Some t, Validations = [], View = []\<rparr>"

text \<open>A link whose parent media type is nil.\<close>

definition orphan_link :: LinkDefinition where
  "orphan_link = \<lparr>link_Name = ''author'', link_View = ''default'', link_Parent = None\<rparr>"

text \<open>
  A media type Post at address 1: an object with the one field \<^verbatim>\<open>author\<close>, a string.
  Its link \<^verbatim>\<open>author\<close> finds the attribute, whose type is not a media type.
\<close>

definition post_heap :: heap where
  "post_heap = empty_heap
     \<lparr>attributes := (attributes empty_heap)
        (1 := attribute_of (Object [(''author'', Some 2)]),
         2 := attribute_of (Primitive String)),
      media_types := (media_types empty_heap)
        (1 := \<lparr>mt_UserType = \<lparr>ut_Attribute = 1, TypeName = ''Post''\<rparr>,
               Identifier = ''application/vnd.post'', Links = [], Views = []\<rparr>)\<rparr>"

definition author_link :: LinkDefinition where
  "author_link = \<lparr>link_Name = ''author'', link_View = ''default'', link_Parent = Some 1\<rparr>"

text \<open>
  A media type at address 1 whose object has the field \<^verbatim>\<open>author\<close>, a string that
  names a view.
\<close>

definition viewed_heap :: heap where
  "viewed_heap = empty_heap
     \<lparr>attributes := (attributes empty_heap)
        (1 := attribute_of (Object [(''author'', Some 2)]),
         2 := \<lparr>Type = Some (Primitive String), Validations = [], View = ''tiny''\<rparr>),
      media_types := (media_types empty_heap)
        (1 := \<lparr>mt_UserType = \<lparr>ut_Attribute = 1, TypeName = ''Post''\<rparr>,
               Identifier = [], Links = [], Views = []\<rparr>)\<rparr>"

text \<open>
  An action whose parameters are an object with the one parameter \<^verbatim>\<open>id\<close>, an
  attribute whose type is nil; a resource with this action and an API with this resource.
\<close>

definition untyped_param_heap :: heap where
  "untyped_param_heap = empty_heap
     \<lparr>attributes := (attributes empty_heap)
        (1 := attribute_of (Object [(''id'', Some 2)]),
         3 := attribute_of (Object []))\<rparr>"

definition show_action :: ActionDefinition where
  "show_action =
     \<lparr>act_Name = ''show'',
      Routes = [\<lparr>Verb = ''GET'', Path = ''/:id'', route_Parent = Some ''show''\<rparr>],
      Responses = [], act_Params = Some 1, Payload = None, act_Parent = Some ''things''\<rparr>"

definition show_resource :: ResourceDefinition where
  "show_resource =
     \<lparr>res_Name = ''things'', BasePath = ''/things'', CanonicalActionName = [], ParentName = [],
      Actions = [show_action], res_Responses = [], res_BaseParams = None, res_Params = None\<rparr>"

definition show_api :: APIDefinition where
  "show_api =
     \<lparr>api_Name = ''things'', api_BaseParams = Some 3, api_Resources = [show_resource],
      api_MediaTypes = [], api_Types = [], api_Responses = []\<rparr>"

text \<open>
  The resource of the specification's example: base path \<^verbatim>\<open>/things/{id}\<close>, base
  parameters an object with no field (the attribute at address 1), and nothing else that
  the validator could object to.
\<close>

definition things_heap :: heap where
  "things_heap = empty_heap
     \<lparr>attributes := (attributes empty_heap)(1 := attribute_of (Object []))\<rparr>"

definition things_resource :: ResourceDefinition where
  "things_resource =
     \<lparr>res_Name = ''things'', BasePath = ''/things/{id}'', CanonicalActionName = [],
      ParentName = [], Actions = [], res_Responses = [], res_BaseParams = Some 1,
      res_Params = None\<rparr>"

text \<open>
  A media type Bottle at address 1 with no identifier, whose attribute (address 1) has no
  type; and the heap after the defaults are filled in.
\<close>

definition bottle_heap :: heap where
  "bottle_heap = empty_heap
     \<lparr>media_types := (media_types empty_heap)
        (1 := \<lparr>mt_UserType = \<lparr>ut_Attribute = 1, TypeName = ''Bottle''\<rparr>, Identifier = [],
               Links = [], Views = []\<rparr>)\<rparr>"

definition bottle_heap_defaulted :: heap where
  "bottle_heap_defaulted = empty_heap
     \<lparr>attributes := (attributes empty_heap)(1 := attribute_of (Primitive String)),
      media_types := (media_types empty_heap)
        (1 := \<lparr>mt_UserType = \<lparr>ut_Attribute = 1, TypeName = ''Bottle''\<rparr>,
               Identifier = ''plain/text'', Links = [], Views = []\<rparr>)\<rparr>"

text \<open>
  An action with the parameter \<^verbatim>\<open>page\<close>, an integer, and three responses: two with
  status 200 and one whose status is not set.
\<close>

definition list_heap :: heap where
  "list_heap = empty_heap
     \<lparr>attributes := (attributes empty_heap)
        (1 := attribute_of (Object [(''page'', Some 2)]),
         2 := attribute_of (Primitive Integer))\<rparr>"

definition ok_response :: ResponseDefinition where
  "ok_response = \<lparr>resp_Name = ''OK'', Status = 200, Headers = None\<rparr>"

definition cached_response :: ResponseDefinition where
  "cached_response = \<lparr>resp_Name = ''Cached'', Status = 200, Headers = None\<rparr>"

definition unset_response :: ResponseDefinition where
  "unset_response = \<lparr>resp_Name = ''Unset'', Status = 0, Headers = None\<rparr>"

definition list_action :: ActionDefinition where
  "list_action =
     \<lparr>act_Name = ''list'',
      Routes = [\<lparr>Verb = ''GET'', Path = '''', route_Parent = Some ''list''\<rparr>],
      Responses = [ok_response, cached_response, unset_response],
      act_Params = Some 1, Payload = None, act_Parent = Some ''things''\<rparr>"


text \<open>
  The action of the duplicate-status example with a parameter as in \<^verbatim>\<open>show_action\<close>:
  two responses with status 200, one whose status is not set, and a parameter \<^verbatim>\<open>id\<close>
  whose type is nil (over \<^verbatim>\<open>untyped_param_heap\<close>).
\<close>

definition crashing_action :: ActionDefinition where
  "crashing_action =
     \<lparr>act_Name = ''list'',
      Routes = [\<lparr>Verb = ''GET'', Path = ''/'', route_Parent = Some ''list''\<rparr>],
      Responses = [ok_response, cached_response, unset_response],
      act_Params = Some 1, Payload = None, act_Parent = Some ''things''\<rparr>"

text \<open>
  A rank for the attributes of a heap: bounded, and smaller on what an attribute contains.
\<close>

definition ranked :: "heap \<Rightarrow> (addr \<Rightarrow> nat) \<Rightarrow> nat \<Rightarrow> bool" where
  "ranked h rk N = ((\<forall>a. rk a < N) \<and> (\<forall>a c. (a, c) \<in> contains h \<longrightarrow> rk c < rk a))"

text \<open>
  An API with one resource, whose one action is \<^verbatim>\<open>list_action\<close>, over
  \<^verbatim>\<open>list_heap\<close>; an environment in which every identifier parses; and a heap whose
  attribute 1 is an array of itself.
\<close>

definition list_resource :: ResourceDefinition where
  "list_resource =
     \<lparr>res_Name = ''things'', BasePath = ''/things'', CanonicalActionName = ''list'',
      ParentName = [], Actions = [list_action], res_Responses = [], res_BaseParams = None,
      res_Params = None\<rparr>"

definition list_api :: APIDefinition where
  "list_api =
     \<lparr>api_Name = ''things'', api_BaseParams = Some 1, api_Resources = [list_resource],
      api_MediaTypes = [], api_Types = [], api_Responses = []\<rparr>"

definition plain_env :: env where
  "plain_env =
     \<lparr>ParseMediaType = (\<lambda>identifier. None),
      FindAllStringSubmatch = ParamsRegex_FindAllStringSubmatch,
      Design_Resources = [], fmt_EXTRA = (\<lambda>r. [])\<rparr>"

definition loop_heap :: heap where
  "loop_heap = empty_heap
     \<lparr>attributes := (attributes empty_heap)(1 := attribute_of (Array (Some 1)))\<rparr>"


section \<open>Properties of error.go\<close>

lemmas ErrorKind_defs =
  ErrInvalidParamType_def ErrMissingParam_def ErrInvalidAttributeType_def
  ErrMissingAttribute_def ErrInvalidEnumValue_def ErrMissingHeader_def
  ErrInvalidFormat_def ErrInvalidPattern_def ErrInvalidRange_def ErrInvalidLength_def

text \<open>
  Claim C2. Every one of the ten kinds of the taxonomy should have a title, the panic
  being left to values outside the ten. The switch of \<^verbatim>\<open>Title\<close> has eight cases:
  \<^verbatim>\<open>ErrInvalidFormat\<close> and \<^verbatim>\<open>ErrInvalidPattern\<close>, the seventh and eighth kinds, fall
  through to \<^verbatim>\<open>panic("unknown kind")\<close>. The titles of the ten kinds, in the order of
  their declaration:
\<close>

theorem Title_of_taxonomy:
  "map Title error_kinds =
     [Inr ''invalid parameter value'', Inr ''missing required parameter'',
      Inr ''invalid attribute type'', Inr ''missing required attribute'',
      Inr ''invalid value'', Inr ''missing required HTTP header'',
      Inl UnknownKind, Inl UnknownKind,
      Inr ''invalid value range'', Inr ''invalid value length'']"
  by (simp add: error_kinds_def Title_def ErrorKind_defs)

lemma quote_abc: "quote ''abc'' = [dq] @ ''abc'' @ [dq]"
  by (simp add: quote_def quote_char_def)

lemma quote_page: "quote ''page'' = [dq] @ ''page'' @ [dq]"
  by (simp add: quote_def quote_char_def)

text \<open>
  Claim C5. \<^verbatim>\<open>InvalidParamTypeError("page", "abc", "integer", nil)\<close> returns a
  one-element \<^verbatim>\<open>MultiError\<close> whose element is a typed error of kind
  \<^verbatim>\<open>ErrInvalidParamType\<close>, titled "invalid parameter value". Its serialized form should
  be the JSON object whose \<^verbatim>\<open>msg\<close> string holds the value and the name between escaped
  double quotes, a backslash before each; the package comment promises that the
  \<^verbatim>\<open>Error\<close> methods return valid JSON. The message that \<^verbatim>\<open>%#v\<close> builds holds the value
  and the name between plain double quotes, and \<^verbatim>\<open>Error\<close> writes the message between
  the fixed prefix and suffix as it is, for this and for any message \<open>m\<close>. So the text
  returned has a bare double quote on each side of \<^verbatim>\<open>abc\<close> and \<^verbatim>\<open>page\<close>: the string
  that starts after \<^verbatim>\<open>"msg":\<close> ends before \<^verbatim>\<open>abc\<close>, the text is not JSON, and it is not
  the escaped form.
\<close>

theorem InvalidParamTypeError_page:
  "InvalidParamTypeError ''page'' (VString ''abc'') ''integer'' None =
     MultiErr [TypedErr \<lparr>Kind = ErrInvalidParamType,
       Mesg = ''invalid value '' @ [dq] @ ''abc'' @ [dq] @ '' for parameter '' @ [dq] @ ''page'' @ [dq]
              @ '', must be a integer''\<rparr>]
   \<and> Title ErrInvalidParamType = Inr ''invalid parameter value''
   \<and> TypedError_Error \<lparr>Kind = ErrInvalidParamType,
       Mesg = ''invalid value '' @ [dq] @ ''abc'' @ [dq] @ '' for parameter '' @ [dq] @ ''page'' @ [dq]
              @ '', must be a integer''\<rparr> =
       Inr (''{'' @ [dq] @ ''kind'' @ [dq] @ '':'' @ [dq] @ ''invalid parameter value'' @ [dq] @ '',''
            @ [dq] @ ''msg'' @ [dq] @ '':'' @ [dq] @ ''invalid value '' @ [dq] @ ''abc'' @ [dq]
            @ '' for parameter '' @ [dq] @ ''page'' @ [dq] @ '', must be a integer'' @ [dq] @ ''}'')
   \<and> TypedError_Error \<lparr>Kind = ErrInvalidParamType,
       Mesg = ''invalid value '' @ [dq] @ ''abc'' @ [dq] @ '' for parameter '' @ [dq] @ ''page'' @ [dq]
              @ '', must be a integer''\<rparr> \<noteq>
       Inr (''{'' @ [dq] @ ''kind'' @ [dq] @ '':'' @ [dq] @ ''invalid parameter value'' @ [dq] @ '',''
            @ [dq] @ ''msg'' @ [dq] @ '':'' @ [dq] @ ''invalid value '' @ [bsl, dq] @ ''abc'' @ [bsl, dq]
            @ '' for parameter '' @ [bsl, dq] @ ''page'' @ [bsl, dq] @ '', must be a integer''
            @ [dq] @ ''}'')
   \<and> TypedError_Error \<lparr>Kind = ErrInvalidParamType, Mesg = m\<rparr> =
       Inr (''{'' @ [dq] @ ''kind'' @ [dq] @ '':'' @ [dq] @ ''invalid parameter value'' @ [dq] @ '',''
            @ [dq] @ ''msg'' @ [dq] @ '':'' @ [dq] @ m @ [dq] @ ''}'')"
  by (simp add: InvalidParamTypeError_def quote_abc quote_page Title_def TypedError_Error_def
      ErrorKind_defs)

lemma ReportError_not_Multi: "\<not> is_MultiErr err \<Longrightarrow> ReportError (Some err) e = MultiErr [err, e]"
  by (cases err) simp_all

lemma flat_ReportError:
  "flat_MultiError err \<Longrightarrow> flat_MultiError (Some (ReportError err (TypedErr t)))"
proof (cases err)
  case None
  then show ?thesis by simp
next
  case (Some e)
  assume "flat_MultiError err"
  with Some show ?thesis by (cases e) simp_all
qed

lemma helper_chain_flat: "helper_chain r \<Longrightarrow> flat_MultiError r"
proof (induction rule: helper_chain.induct)
  case (chain_InvalidFormat err ctx target format formatError e)
  then show ?case
    by (auto simp: InvalidFormatError_def flat_ReportError split: option.splits sum.splits)
qed (simp_all add: flat_ReportError InvalidParamTypeError_def MissingParamError_def
      InvalidAttributeTypeError_def MissingAttributeError_def MissingHeaderError_def
      InvalidEnumValueError_def InvalidPatternError_def InvalidRangeError_def
      InvalidLengthError_def Let_def)

text \<open>
  Claim C6. \<^verbatim>\<open>ReportError(err, e)\<close> is \<open>[e]\<close> when \<open>err\<close> is nil; \<open>err\<close> with \<open>e\<close>
  appended after its elements, which stay as they are and in their order, when \<open>err\<close> is
  a \<^verbatim>\<open>MultiError\<close>; and \<open>[err, e]\<close> for any other \<open>err\<close>. So a value built by chaining
  the construction helpers from nil is a \<^verbatim>\<open>MultiError\<close> with no \<^verbatim>\<open>MultiError\<close> among
  its elements.
\<close>

theorem ReportError_coercion:
  "ReportError None e = MultiErr [e]
   \<and> ReportError (Some (MultiErr m)) e = MultiErr (m @ [e])
   \<and> (\<not> is_MultiErr err \<longrightarrow> ReportError (Some err) e = MultiErr [err, e])
   \<and> (helper_chain r \<longrightarrow> flat_MultiError r)"
  by (simp add: ReportError_not_Multi helper_chain_flat)

theorem ReportError_coercion_witness:
  "ReportError None (OtherErr ''x'') = MultiErr [OtherErr ''x'']
   \<and> ReportError (Some (MultiErr [OtherErr ''z''])) (OtherErr ''x'')
       = MultiErr ([OtherErr ''z''] @ [OtherErr ''x''])
   \<and> \<not> is_MultiErr (OtherErr ''y'')
   \<and> ReportError (Some (OtherErr ''y'')) (OtherErr ''x'') = MultiErr [OtherErr ''y'', OtherErr ''x'']
   \<and> helper_chain (Some (MissingHeaderError ''h'' (Some (MissingParamError ''id'' None))))
   \<and> flat_MultiError (Some (MissingHeaderError ''h'' (Some (MissingParamError ''id'' None))))"
proof -
  have c: "helper_chain (Some (MissingHeaderError ''h'' (Some (MissingParamError ''id'' None))))"
    by (intro helper_chain.intros)
  have n: "\<not> is_MultiErr (OtherErr ''y'')" by simp
  from ReportError_coercion [of "OtherErr ''x''" "[OtherErr ''z'']" "OtherErr ''y''"
      "Some (MissingHeaderError ''h'' (Some (MissingParamError ''id'' None)))"] c n
  show ?thesis by blast
qed

section \<open>Properties of the validation error set\<close>

lemma built_parallel: "built v ps \<Longrightarrow> Errors v = map fst ps \<and> Definitions v = map snd ps"
  by (induction rule: built.induct) (simp_all add: new_ValidationErrors_def Add_def Merge_def)

lemma Error_loop_in_bounds:
  "\<forall>i \<in> set idx. i < length (Definitions v) \<Longrightarrow>
   Error_loop Context v idx = Inr (map (\<lambda>i. Context (Definitions v ! i) @ '': '' @ Errors v ! i) idx)"
  by (induction idx) simp_all

text \<open>
  Claim C9. A set built from the empty one by any sequence of \<^verbatim>\<open>Add\<close> and
  \<^verbatim>\<open>Merge\<close> has as many errors as definitions; the entry at each index is the pair
  that was added, in the order of the additions; and \<^verbatim>\<open>Error\<close> returns its text, one
  line for each pair, without an index out of range.
\<close>

theorem built_lengths_agree:
  "built v ps \<Longrightarrow>
     length (Errors v) = length (Definitions v)
     \<and> entries v = ps
     \<and> ValidationErrors_Error Context v =
         Inr (join (map (\<lambda>(msg, def). Context def @ '': '' @ msg) ps) [CHR 0x0A])"
proof -
  assume b: "built v ps"
  from built_parallel [OF b] have e: "Errors v = map fst ps" and d: "Definitions v = map snd ps"
    by simp_all
  have z: "entries v = ps" by (simp add: entries_def e d zip_map_fst_snd)
  have "Error_loop Context v [0 ..< length (Errors v)] =
      Inr (map (\<lambda>i. Context (Definitions v ! i) @ '': '' @ Errors v ! i) [0 ..< length (Errors v)])"
    by (rule Error_loop_in_bounds) (simp add: e d)
  also have "map (\<lambda>i. Context (Definitions v ! i) @ '': '' @ Errors v ! i) [0 ..< length (Errors v)]
      = map (\<lambda>(msg, def). Context def @ '': '' @ msg) ps"
    by (rule nth_equalityI) (simp_all add: e d case_prod_unfold)
  finally show ?thesis using z by (simp add: ValidationErrors_Error_def e d)
qed

theorem built_lengths_agree_witness:
  "built (Merge (Add new_ValidationErrors ''action'' ''No route defined for action'')
            (Add new_ValidationErrors ''response'' ''response status not defined''))
     [(''No route defined for action'', ''action''), (''response status not defined'', ''response'')]
   \<and> length (Errors (Merge (Add new_ValidationErrors ''action'' ''No route defined for action'')
            (Add new_ValidationErrors ''response'' ''response status not defined''))) = 2
   \<and> length (Definitions (Merge (Add new_ValidationErrors ''action'' ''No route defined for action'')
            (Add new_ValidationErrors ''response'' ''response status not defined''))) = 2
   \<and> ValidationErrors_Error id
        (Merge (Add new_ValidationErrors ''action'' ''No route defined for action'')
            (Add new_ValidationErrors ''response'' ''response status not defined''))
       = Inr (''action: No route defined for action'' @ [CHR 0x0A]
              @ ''response: response status not defined'')"
proof -
  have a: "built (Add new_ValidationErrors ''action'' ''No route defined for action'')
             ([] @ [(''No route defined for action'', ''action'')])"
    by (intro built.intros)
  have r: "built (Add new_ValidationErrors ''response'' ''response status not defined'')
             ([] @ [(''response status not defined'', ''response'')])"
    by (intro built.intros)
  have b: "built (Merge (Add new_ValidationErrors ''action'' ''No route defined for action'')
            (Add new_ValidationErrors ''response'' ''response status not defined''))
     [(''No route defined for action'', ''action''), (''response status not defined'', ''response'')]"
    using built_Merge [OF a r] by simp
  from built_lengths_agree [OF b, of id] b show ?thesis
    by (simp add: Merge_def Add_def new_ValidationErrors_def)
qed

section \<open>Results and loops\<close>

lemma bind_simps [simp]:
  "bind None f = None" "bind (Panic p) f = Panic p" "bind (Ok x) f = f x"
  by (simp_all add: bind_def)

lemma bind_eq_Ok: "bind m f = Ok y \<longleftrightarrow> (\<exists>x. m = Ok x \<and> f x = Ok y)"
  by (auto simp: bind_def split: option.splits sum.splits)

lemma bind_eq_None: "bind m f = None \<longleftrightarrow> m = None \<or> (\<exists>x. m = Ok x \<and> f x = None)"
  by (auto simp: bind_def split: option.splits sum.splits)

lemma for_each_not_None:
  "P s \<Longrightarrow> (\<And>x s. x \<in> set xs \<Longrightarrow> P s \<Longrightarrow> body x s \<noteq> None \<and> (\<forall>s'. body x s = Ok s' \<longrightarrow> P s'))
   \<Longrightarrow> for_each body xs s \<noteq> None"
proof (induction xs arbitrary: s)
  case Nil
  then show ?case by simp
next
  case (Cons x xs)
  have b: "body x s \<noteq> None" and p: "\<And>s'. body x s = Ok s' \<Longrightarrow> P s'"
    using Cons.prems by auto
  show ?case
  proof (cases "body x s")
    case None
    with b show ?thesis by simp
  next
    case (Some r)
    show ?thesis
    proof (cases r)
      case (Inl q)
      with Some show ?thesis by simp
    next
      case (Inr s')
      with Some have "P s'" using p by simp
      then have "for_each body xs s' \<noteq> None"
        using Cons.prems(2) by (intro Cons.IH) auto
      with Some Inr show ?thesis by simp
    qed
  qed
qed

lemma for_each_invariant:
  "for_each body xs s = Ok s' \<Longrightarrow> P s
   \<Longrightarrow> (\<And>x s s'. x \<in> set xs \<Longrightarrow> P s \<Longrightarrow> body x s = Ok s' \<Longrightarrow> P s') \<Longrightarrow> P s'"
proof (induction xs arbitrary: s)
  case Nil
  then show ?case by simp
next
  case (Cons x xs)
  from Cons.prems(1) obtain s1 where s1: "body x s = Ok s1" and r: "for_each body xs s1 = Ok s'"
    by (auto simp: bind_eq_Ok)
  have "P s1" using Cons.prems(2,3) s1 by auto
  then show ?case using r Cons.prems(3) by (intro Cons.IH [of s1]) auto
qed

section \<open>What the validators of actions report\<close>

lemma paired_new [simp]: "paired new_ValidationErrors"
  by (simp add: paired_def new_ValidationErrors_def)

lemma paired_Add [simp]: "paired v \<Longrightarrow> paired (Add v d m)"
  by (simp add: paired_def Add_def)

lemma paired_Merge [simp]: "paired v \<Longrightarrow> paired w \<Longrightarrow> paired (Merge v w)"
  by (simp add: paired_def Merge_def)

lemma paired_Merge_if [simp]: "paired v \<Longrightarrow> paired_opt e \<Longrightarrow> paired (Merge_if v e)"
  by (cases e) (simp_all add: Merge_if_def paired_opt_def)

lemma paired_AsError [simp]: "paired v \<Longrightarrow> paired_opt (AsError v)"
  by (simp add: AsError_def paired_opt_def)

lemma paired_opt_Some [simp]: "paired_opt (Some v) = paired v"
  by (simp add: paired_opt_def)

lemma paired_opt_None [simp]: "paired_opt None"
  by (simp add: paired_opt_def)

lemma entries_new [simp]: "entries new_ValidationErrors = []"
  by (simp add: entries_def new_ValidationErrors_def)

lemma entries_Add [simp]: "paired v \<Longrightarrow> entries (Add v d m) = entries v @ [(m, d)]"
  by (simp add: entries_def Add_def paired_def)

lemma entries_Merge [simp]: "paired v \<Longrightarrow> entries (Merge v w) = entries v @ entries w"
  by (simp add: entries_def Merge_def paired_def)

lemma reported_simps [simp]:
  "reported None = []" "reported (Panic p) = []" "reported (Ok None) = []"
  "reported (Ok (Some v)) = entries v"
  by (simp_all add: reported_def)

lemma entries_Merge_if [simp]: "paired v \<Longrightarrow> entries (Merge_if v e) = entries v @ reported (Ok e)"
  by (cases e) (simp_all add: Merge_if_def)

lemma reported_AsError [simp]: "paired v \<Longrightarrow> reported (Ok (AsError v)) = entries v"
  by (simp add: AsError_def entries_def paired_def)

text \<open>A loop that merges the result of a validator for each element, after local additions.\<close>

lemma merge_loop:
  assumes "for_each (\<lambda>x verr. bind (f x) (\<lambda>err. Ok (Merge_if (pre x verr) err))) xs v = Ok v'"
    and "paired v"
    and "\<And>x v. x \<in> set xs \<Longrightarrow> paired v \<Longrightarrow> paired (pre x v) \<and> entries (pre x v) = entries v @ P x"
    and "\<And>x e. x \<in> set xs \<Longrightarrow> f x = Ok e \<Longrightarrow> paired_opt e"
  shows "paired v' \<and> (\<forall>x \<in> set xs. \<exists>e. f x = Ok e)
         \<and> entries v' = entries v @ concat (map (\<lambda>x. P x @ reported (f x)) xs)"
  using assms
proof (induction xs arbitrary: v)
  case Nil
  then show ?case by simp
next
  case (Cons x xs)
  from Cons.prems(1) obtain e where e: "f x = Ok e"
    and r: "for_each (\<lambda>x verr. bind (f x) (\<lambda>err. Ok (Merge_if (pre x verr) err))) xs (Merge_if (pre x v) e) = Ok v'"
    by (auto simp: bind_eq_Ok)
  have we: "paired_opt e" using Cons.prems(4) [of x e] e by simp
  have wp: "paired (pre x v)" and ep: "entries (pre x v) = entries v @ P x"
    using Cons.prems(3) [of x v] Cons.prems(2) by simp_all
  have wm: "paired (Merge_if (pre x v) e)" using wp we by simp
  have "paired v' \<and> (\<forall>x \<in> set xs. \<exists>e. f x = Ok e)
         \<and> entries v' = entries (Merge_if (pre x v) e) @ concat (map (\<lambda>x. P x @ reported (f x)) xs)"
    using r wm Cons.prems(3,4) by (intro Cons.IH) auto
  then show ?case using e wp ep by simp
qed

lemma noM_not_duplicate: "noM m \<Longrightarrow> \<not> is_duplicate_status m"
  by (cases m) (auto simp: noM_def is_duplicate_status_def)

lemma is_duplicate_status_msg [simp]: "is_duplicate_status (duplicate_status_msg s)"
  by (simp add: is_duplicate_status_def duplicate_status_msg_def)

lemma noM_append: "noM c \<Longrightarrow> noM s \<Longrightarrow> noM (c @ s)"
  by (cases c) (auto simp: noM_def)

lemma noM_Cons [simp]: "noM (c # s) = (c \<noteq> CHR ''M'')"
  by (simp add: noM_def)

lemma noM_Nil [simp]: "noM []"
  by (simp add: noM_def)

lemma tidy_new [simp]: "tidy new_ValidationErrors"
  by (simp add: tidy_def new_ValidationErrors_def paired_def)

lemma tidy_Add [simp]: "tidy v \<Longrightarrow> noM m \<Longrightarrow> tidy (Add v d m)"
  by (simp add: tidy_def Add_def paired_def)

lemma tidy_Merge [simp]: "tidy v \<Longrightarrow> tidy w \<Longrightarrow> tidy (Merge v w)"
  by (simp add: tidy_def Merge_def paired_def)

lemma tidy_opt_simps [simp]: "tidy_opt None" "tidy_opt (Some v) = tidy v"
  by (simp_all add: tidy_opt_def)

lemma tidy_Merge_if [simp]: "tidy v \<Longrightarrow> tidy_opt e \<Longrightarrow> tidy (Merge_if v e)"
  by (cases e) (simp_all add: Merge_if_def)

lemma tidy_AsError [simp]: "tidy v \<Longrightarrow> tidy_opt (AsError v)"
  by (simp add: AsError_def)

lemma tidy_paired: "tidy v \<Longrightarrow> paired v"
  by (simp add: tidy_def)

lemma tidy_opt_paired: "tidy_opt e \<Longrightarrow> paired_opt e"
  by (cases e) (simp_all add: tidy_paired)

lemma tidy_required_names: "tidy v \<Longrightarrow> noM ctx \<Longrightarrow> tidy (required_names v parent ctx obj names)"
  unfolding required_names_def
  by (induction names arbitrary: v) (simp_all add: noM_append)

lemma foldl_invariant:
  "P s \<Longrightarrow> (\<And>x s. x \<in> set xs \<Longrightarrow> P s \<Longrightarrow> P (f s x)) \<Longrightarrow> P (foldl f s xs)"
  by (induction xs arbitrary: s) simp_all

lemma tidy_check_validation:
  "tidy v \<Longrightarrow> noM ctx \<Longrightarrow> tidy (check_validation parent ctx obj isObject v x)"
  by (cases x) (simp_all add: check_validation_def tidy_required_names noM_append)

lemma tidy_check_validations:
  "tidy v \<Longrightarrow> noM ctx \<Longrightarrow> tidy (check_validations v parent ctx obj isObject vs)"
  unfolding check_validations_def
  by (rule foldl_invariant) (simp_all add: tidy_check_validation)

lemma tidy_for_each_merge:
  assumes "for_each (\<lambda>x verr. bind (f x) (\<lambda>err. Ok (Merge_if verr err))) xs v = Ok v'"
    and "tidy v" and "\<And>x e. x \<in> set xs \<Longrightarrow> f x = Ok e \<Longrightarrow> tidy_opt e"
  shows "tidy v'"
  using assms(1,2)
proof (rule for_each_invariant)
  fix x s s' assume "x \<in> set xs" "tidy s" "bind (f x) (\<lambda>err. Ok (Merge_if s err)) = Ok s'"
  then show "tidy s'" using assms(3) [of x] by (auto simp: bind_eq_Ok)
qed

lemma ADV_nil_type:
  "Type (attributes h x) = None \<Longrightarrow>
   AttributeDefinition_Validate (Suc n) h ctx parent (Some x)
     = Ok (Some (Add new_ValidationErrors parent ''attribute type is nil''))"
  by simp

lemma ADV_object:
  "Type (attributes h x) = Some (Object obj) \<Longrightarrow>
   AttributeDefinition_Validate (Suc n) h ctx parent (Some x)
     = bind (for_each
               (\<lambda>f verr. bind (AttributeDefinition_Validate n h (''field '' @ fst f) (AttributeDef x) (snd f))
                               (\<lambda>err. Ok (Merge_if verr err)))
               obj
               (check_validations new_ValidationErrors parent (ctx_dash ctx) obj True
                  (Validations (attributes h x))))
            (\<lambda>verr. Ok (AsError verr))"
  by (simp add: Let_def case_prod_unfold)

lemma ADV_other:
  "Type (attributes h x) = Some t \<Longrightarrow> \<not> is_Object t \<Longrightarrow>
   AttributeDefinition_Validate (Suc n) h ctx parent (Some x)
     = bind (DataType_IsArray n h (Some t))
         (\<lambda>isArray.
            if isArray then
              bind (DataType_ToArray n h (Some t))
                (\<lambda>arr. case arr of
                          None \<Rightarrow> Panic NilDereference
                        | Some elemType \<Rightarrow>
                            bind (AttributeDefinition_Validate n h (ctx_dash ctx) (AttributeDef x) elemType)
                              (\<lambda>err. Ok (AsError (Merge_if
                                 (check_validations new_ValidationErrors parent (ctx_dash ctx) [] False
                                    (Validations (attributes h x))) err))))
            else Ok (AsError (check_validations new_ValidationErrors parent (ctx_dash ctx) [] False
                                    (Validations (attributes h x)))))"
  by (cases t) (auto simp: Let_def)

declare AttributeDefinition_Validate.simps(3) [simp del]

lemma AttributeDefinition_Validate_tidy:
  "AttributeDefinition_Validate n h ctx parent a = Ok r \<Longrightarrow> noM ctx \<Longrightarrow> tidy_opt r"
proof (induction n arbitrary: ctx parent a r)
  case 0
  then show ?case by (cases a) simp_all
next
  case (Suc n)
  have c: "noM (ctx_dash ctx)" using Suc.prems(2) by (simp add: noM_append)
  have tv: "\<And>obj b. tidy (check_validations new_ValidationErrors parent (ctx_dash ctx) obj b
                (Validations (attributes h (the a))))"
    using c by (intro tidy_check_validations) simp_all
  show ?case
  proof (cases a)
    case None
    with Suc.prems show ?thesis by simp
  next
    case (Some x)
    show ?thesis
    proof (cases "Type (attributes h x)")
      case None
      with Some Suc.prems show ?thesis by (auto simp: ADV_nil_type)
    next
      case (Some t)
      show ?thesis
      proof (cases "is_Object t")
        case True
        then obtain obj where t: "t = Object obj" by (cases t) simp_all
        from Suc.prems(1) \<open>a = Some x\<close> Some t obtain v' where
          l: "for_each (\<lambda>f verr. bind (AttributeDefinition_Validate n h (''field '' @ fst f) (AttributeDef x) (snd f))
                   (\<lambda>err. Ok (Merge_if verr err))) obj
                (check_validations new_ValidationErrors parent (ctx_dash ctx) obj True
                  (Validations (attributes h x))) = Ok v'"
          and r: "r = AsError v'"
          by (auto simp: ADV_object bind_eq_Ok)
        have "tidy v'"
          using l
        proof (rule tidy_for_each_merge)
          show "tidy (check_validations new_ValidationErrors parent (ctx_dash ctx) obj True
                  (Validations (attributes h x)))"
            using tv [of obj True] \<open>a = Some x\<close> by simp
        next
          fix y e assume "AttributeDefinition_Validate n h (''field '' @ fst y) (AttributeDef x) (snd y) = Ok e"
          then show "tidy_opt e" by (rule Suc.IH) simp
        qed
        then show ?thesis using r by simp
      next
        case False
        let ?v = "check_validations new_ValidationErrors parent (ctx_dash ctx) [] False
                                    (Validations (attributes h x))"
        have tv': "tidy ?v" using tv [of "[]" False] \<open>a = Some x\<close> by simp
        from Suc.prems(1) \<open>a = Some x\<close> Some False obtain isArray where
          ia: "DataType_IsArray n h (Some t) = Ok isArray"
          and rest: "(if isArray then
              bind (DataType_ToArray n h (Some t))
                (\<lambda>arr. case arr of
                          None \<Rightarrow> Panic NilDereference
                        | Some elemType \<Rightarrow>
                            bind (AttributeDefinition_Validate n h (ctx_dash ctx) (AttributeDef x) elemType)
                              (\<lambda>err. Ok (AsError (Merge_if ?v err))))
            else Ok (AsError ?v)) = Ok r"
          by (auto simp: ADV_other bind_eq_Ok)
        show ?thesis
        proof (cases isArray)
          case False
          with rest have "r = AsError ?v" by simp
          then show ?thesis using tv' by simp
        next
          case True
          with rest obtain e err where
            e: "AttributeDefinition_Validate n h (ctx_dash ctx) (AttributeDef x) e = Ok err"
            and r: "r = AsError (Merge_if ?v err)"
            by (auto simp: bind_eq_Ok split: option.splits)
          have "tidy_opt err" using e c by (rule Suc.IH)
          then show ?thesis using r tv' by simp
        qed
      qed
    qed
  qed
qed

lemma ResponseDefinition_Validate_tidy:
  "ResponseDefinition_Validate n h r = Ok e \<Longrightarrow> tidy_opt e"
  by (cases "Headers r")
     (auto simp: ResponseDefinition_Validate_def bind_eq_Ok Let_def
           dest!: AttributeDefinition_Validate_tidy)

lemma UserTypeDefinition_Validate_tidy:
  "UserTypeDefinition_Validate n h ctx parent u = Ok e \<Longrightarrow> noM ctx \<Longrightarrow> tidy_opt e"
  by (auto simp: UserTypeDefinition_Validate_def bind_eq_Ok Let_def noM_append
           dest!: AttributeDefinition_Validate_tidy)

lemma Action_parameter_tidy:
  "Action_parameter n h a x v = Ok v' \<Longrightarrow> tidy v \<Longrightarrow> tidy v'"
  by (cases x)
     (auto simp: Action_parameter_def bind_eq_Ok Let_def
           split: option.splits if_splits dest!: AttributeDefinition_Validate_tidy)

lemma aside_new [simp]: "aside new_ValidationErrors"
  by (simp add: aside_def new_ValidationErrors_def)

lemma aside_Add [simp]: "aside v \<Longrightarrow> \<not> is_ResponseDef d \<Longrightarrow> aside (Add v d m)"
  by (simp add: aside_def Add_def)

lemma aside_Merge [simp]: "aside v \<Longrightarrow> aside w \<Longrightarrow> aside (Merge v w)"
  by (simp add: aside_def Merge_def)

lemma aside_opt_simps [simp]: "aside_opt None" "aside_opt (Some v) = aside v"
  by (simp_all add: aside_opt_def)

lemma aside_Merge_if [simp]: "aside v \<Longrightarrow> aside_opt e \<Longrightarrow> aside (Merge_if v e)"
  by (cases e) (simp_all add: Merge_if_def)

lemma aside_AsError [simp]: "aside v \<Longrightarrow> aside_opt (AsError v)"
  by (simp add: AsError_def)

lemma aside_required_names:
  "aside v \<Longrightarrow> \<not> is_ResponseDef parent \<Longrightarrow> aside (required_names v parent ctx obj names)"
  unfolding required_names_def
  by (induction names arbitrary: v) simp_all

lemma aside_check_validation:
  "aside v \<Longrightarrow> \<not> is_ResponseDef parent \<Longrightarrow> aside (check_validation parent ctx obj isObject v x)"
  by (cases x) (simp_all add: check_validation_def aside_required_names)

lemma aside_check_validations:
  "aside v \<Longrightarrow> \<not> is_ResponseDef parent \<Longrightarrow> aside (check_validations v parent ctx obj isObject vs)"
  unfolding check_validations_def
  by (rule foldl_invariant) (simp_all add: aside_check_validation)

lemma aside_for_each_merge:
  assumes "for_each (\<lambda>x verr. bind (f x) (\<lambda>err. Ok (Merge_if verr err))) xs v = Ok v'"
    and "aside v" and "\<And>x e. x \<in> set xs \<Longrightarrow> f x = Ok e \<Longrightarrow> aside_opt e"
  shows "aside v'"
  using assms(1,2)
proof (rule for_each_invariant)
  fix x s s' assume "x \<in> set xs" "aside s" "bind (f x) (\<lambda>err. Ok (Merge_if s err)) = Ok s'"
  then show "aside s'" using assms(3) [of x] by (auto simp: bind_eq_Ok)
qed

lemma AttributeDefinition_Validate_aside:
  "AttributeDefinition_Validate n h ctx parent a = Ok r \<Longrightarrow> \<not> is_ResponseDef parent \<Longrightarrow> aside_opt r"
proof (induction n arbitrary: ctx parent a r)
  case 0
  then show ?case by (cases a) simp_all
next
  case (Suc n)
  have tv: "\<And>obj b. aside (check_validations new_ValidationErrors parent (ctx_dash ctx) obj b
                (Validations (attributes h (the a))))"
    using Suc.prems(2) by (intro aside_check_validations) simp_all
  show ?case
  proof (cases a)
    case None
    with Suc.prems show ?thesis by simp
  next
    case (Some x)
    show ?thesis
    proof (cases "Type (attributes h x)")
      case None
      with Some Suc.prems show ?thesis by (auto simp: ADV_nil_type)
    next
      case (Some t)
      show ?thesis
      proof (cases "is_Object t")
        case True
        then obtain obj where t: "t = Object obj" by (cases t) simp_all
        from Suc.prems(1) \<open>a = Some x\<close> Some t obtain v' where
          l: "for_each (\<lambda>f verr. bind (AttributeDefinition_Validate n h (''field '' @ fst f) (AttributeDef x) (snd f))
                   (\<lambda>err. Ok (Merge_if verr err))) obj
                (check_validations new_ValidationErrors parent (ctx_dash ctx) obj True
                  (Validations (attributes h x))) = Ok v'"
          and r: "r = AsError v'"
          by (auto simp: ADV_object bind_eq_Ok)
        have "aside v'"
          using l
        proof (rule aside_for_each_merge)
          show "aside (check_validations new_ValidationErrors parent (ctx_dash ctx) obj True
                  (Validations (attributes h x)))"
            using tv [of obj True] \<open>a = Some x\<close> by simp
        next
          fix y e assume "AttributeDefinition_Validate n h (''field '' @ fst y) (AttributeDef x) (snd y) = Ok e"
          then show "aside_opt e" by (rule Suc.IH) simp
        qed
        then show ?thesis using r by simp
      next
        case False
        let ?v = "check_validations new_ValidationErrors parent (ctx_dash ctx) [] False
                                    (Validations (attributes h x))"
        have tv': "aside ?v" using tv [of "[]" False] \<open>a = Some x\<close> by simp
        from Suc.prems(1) \<open>a = Some x\<close> Some False obtain isArray where
          ia: "DataType_IsArray n h (Some t) = Ok isArray"
          and rest: "(if isArray then
              bind (DataType_ToArray n h (Some t))
                (\<lambda>arr. case arr of
                          None \<Rightarrow> Panic NilDereference
                        | Some elemType \<Rightarrow>
                            bind (AttributeDefinition_Validate n h (ctx_dash ctx) (AttributeDef x) elemType)
                              (\<lambda>err. Ok (AsError (Merge_if ?v err))))
            else Ok (AsError ?v)) = Ok r"
          by (auto simp: ADV_other bind_eq_Ok)
        show ?thesis
        proof (cases isArray)
          case False
          with rest have "r = AsError ?v" by simp
          then show ?thesis using tv' by simp
        next
          case True
          with rest obtain e err where
            e: "AttributeDefinition_Validate n h (ctx_dash ctx) (AttributeDef x) e = Ok err"
            and r: "r = AsError (Merge_if ?v err)"
            by (auto simp: bind_eq_Ok split: option.splits)
          have "aside_opt err" using e by (rule Suc.IH) simp
          then show ?thesis using r tv' by simp
        qed
      qed
    qed
  qed
qed

lemma UserTypeDefinition_Validate_aside:
  "UserTypeDefinition_Validate n h ctx parent u = Ok e \<Longrightarrow> \<not> is_ResponseDef parent \<Longrightarrow> aside_opt e"
  by (auto simp: UserTypeDefinition_Validate_def bind_eq_Ok Let_def
           dest!: AttributeDefinition_Validate_aside)

lemma Action_parameter_aside:
  "Action_parameter n h a x v = Ok v' \<Longrightarrow> aside v \<Longrightarrow> aside v'"
  by (cases x)
     (auto simp: Action_parameter_def bind_eq_Ok Let_def
           split: option.splits if_splits dest!: AttributeDefinition_Validate_aside)

lemma aside_entries: "aside v \<Longrightarrow> list_all (\<lambda>p. \<not> is_ResponseDef (snd p)) (entries v)"
  by (auto simp: aside_def entries_def list_all_iff dest: set_zip_rightD)

lemma aside_reported: "aside_opt e \<Longrightarrow> list_all (\<lambda>p. \<not> is_ResponseDef (snd p)) (reported (Ok e))"
  by (cases e) (simp_all add: aside_entries)

lemma duplicate_statuses_entries:
  "paired v \<Longrightarrow> paired (duplicate_statuses rs i r v)
     \<and> entries (duplicate_statuses rs i r v) = entries v @ duplicate_pairs rs i r"
proof -
  have "paired v \<Longrightarrow> paired (foldl (\<lambda>verr (j, r2).
              if i \<noteq> j \<and> Status r = Status r2
              then Add verr (ResponseDef r) (duplicate_status_msg (Status r))
              else verr) v ys)
     \<and> entries (foldl (\<lambda>verr (j, r2).
              if i \<noteq> j \<and> Status r = Status r2
              then Add verr (ResponseDef r) (duplicate_status_msg (Status r))
              else verr) v ys)
       = entries v @ map (\<lambda>jr. (duplicate_status_msg (Status r), ResponseDef r))
            (filter (\<lambda>(j, r2). i \<noteq> j \<and> Status r = Status r2) ys)" for ys
    by (induction ys arbitrary: v) (auto simp: case_prod_unfold)
  then show "paired v \<Longrightarrow> ?thesis"
    by (simp add: duplicate_statuses_def duplicate_pairs_def)
qed

text \<open>ValidateParams with parameters set: the responses are validated again at the end.\<close>

lemma ActionDefinition_ValidateParams_responses:
  assumes "ActionDefinition_ValidateParams n h a = Ok e" and "act_Params a \<noteq> None"
  shows "tidy_opt e
     \<and> (\<exists>X. list_all (\<lambda>p. \<not> is_ResponseDef (snd p)) X
            \<and> reported (Ok e)
                = X @ concat (map (\<lambda>r. reported (ResponseDefinition_Validate n h r)) (Responses a)))"
proof -
  from assms(2) obtain ps where ps: "act_Params a = Some ps" by auto
  let ?params = "fst (as_Object (Type (attributes h ps)))"
  let ?v0 = "if \<not> snd (as_Object (Type (attributes h ps)))
             then Add new_ValidationErrors (ActionDef a)
                    ([dq] @ ''Params'' @ [dq] @ '' field of action is not an object'')
             else new_ValidationErrors"
  from assms(1) ps obtain v1 v2 where
    l1: "for_each (Action_parameter n h a) ?params ?v0 = Ok v1"
    and l2: "for_each (\<lambda>resp verr. bind (ResponseDefinition_Validate n h resp) (\<lambda>err. Ok (Merge_if verr err)))
               (Responses a) v1 = Ok v2"
    and e: "e = AsError v2"
    by (auto simp: ActionDefinition_ValidateParams_def Let_def case_prod_unfold bind_eq_Ok)
  have t0: "tidy ?v0" by simp
  have t1: "tidy v1" using l1 t0 by (rule for_each_invariant) (rule Action_parameter_tidy)
  have m: "paired v2 \<and> (\<forall>x \<in> set (Responses a). \<exists>e. ResponseDefinition_Validate n h x = Ok e)
         \<and> entries v2 = entries v1 @ concat (map (\<lambda>x. [] @ reported (ResponseDefinition_Validate n h x)) (Responses a))"
    using l2
  proof (rule merge_loop [where pre = "\<lambda>x v. v"])
    show "paired v1" using t1 by (rule tidy_paired)
  next
    fix x e assume "ResponseDefinition_Validate n h x = Ok e"
    then show "paired_opt e" by (intro tidy_opt_paired ResponseDefinition_Validate_tidy)
  qed simp
  have t2: "tidy v2" using l2 t1
    by (rule tidy_for_each_merge) (rule ResponseDefinition_Validate_tidy)
  have a1: "aside v1" using l1
    by (rule for_each_invariant [where P = aside]) (simp_all add: Action_parameter_aside)
  have "reported (Ok e)
          = entries v1 @ concat (map (\<lambda>r. reported (ResponseDefinition_Validate n h r)) (Responses a))"
    using m e by simp
  with aside_entries [OF a1] t2 e show ?thesis by auto
qed

lemma ActionDefinition_ValidateParams_tidy:
  assumes "ActionDefinition_ValidateParams n h a = Ok e"
  shows "tidy_opt e"
proof (cases "act_Params a")
  case None
  with assms show ?thesis by (simp add: ActionDefinition_ValidateParams_def)
next
  case (Some ps)
  with assms show ?thesis using ActionDefinition_ValidateParams_responses [of n h a e] by simp
qed

text \<open>The shape of what ActionDefinition.Validate reports.\<close>

lemma ActionDefinition_Validate_reported:
  assumes "ActionDefinition_Validate n h a = Ok r"
  shows "(\<forall>x \<in> set (Responses a). \<exists>e. ResponseDefinition_Validate n h x = Ok e)
      \<and> (\<exists>A B. list_all (\<lambda>p. noM (fst p)) A \<and> list_all (\<lambda>p. noM (fst p)) B
          \<and> list_all (\<lambda>p. \<not> is_ResponseDef (snd p)) A
          \<and> list_all (\<lambda>p. \<not> is_ResponseDef (snd p)) B
          \<and> reported (Ok r) =
              A @ concat (map (\<lambda>x. duplicate_pairs (Responses a) (fst x) (snd x)
                                     @ reported (ResponseDefinition_Validate n h (snd x)))
                            (enumerate 0 (Responses a)))
              @ reported (ActionDefinition_ValidateParams n h a) @ B)"
proof -
  let ?v0 = "if length (Routes a) = 0
             then Add (if act_Name a = [] then Add new_ValidationErrors (ActionDef a) ''Action name cannot be empty''
                       else new_ValidationErrors) (ActionDef a) ''No route defined for action''
             else (if act_Name a = [] then Add new_ValidationErrors (ActionDef a) ''Action name cannot be empty''
                       else new_ValidationErrors)"
  from assms obtain v1 pe v3 where
    l1: "for_each (\<lambda>x verr. bind (ResponseDefinition_Validate n h (snd x))
                 (\<lambda>err. Ok (Merge_if (duplicate_statuses (Responses a) (fst x) (snd x) verr) err)))
            (enumerate 0 (Responses a)) ?v0 = Ok v1"
    and pe: "ActionDefinition_ValidateParams n h a = Ok pe"
    and py: "(case Payload a of None \<Rightarrow> Ok (Merge_if v1 pe)
             | Some p \<Rightarrow> bind (UserTypeDefinition_Validate n h ''action payload'' (ActionDef a) (user_types h p))
                          (\<lambda>err. Ok (Merge_if (Merge_if v1 pe) err))) = Ok v3"
    and r: "r = AsError (if act_Parent a = None then Add v3 (ActionDef a) ''missing parent resource'' else v3)"
    by (auto simp: ActionDefinition_Validate_def Let_def case_prod_unfold bind_eq_Ok)
  have t0: "tidy ?v0" by simp
  have m: "paired v1 \<and> (\<forall>x \<in> set (enumerate 0 (Responses a)). \<exists>e. ResponseDefinition_Validate n h (snd x) = Ok e)
         \<and> entries v1 = entries ?v0 @ concat (map (\<lambda>x. duplicate_pairs (Responses a) (fst x) (snd x)
                                     @ reported (ResponseDefinition_Validate n h (snd x)))
                            (enumerate 0 (Responses a)))"
    using l1
  proof (rule merge_loop [where pre = "\<lambda>x v. duplicate_statuses (Responses a) (fst x) (snd x) v"])
    show "paired ?v0" using t0 by (rule tidy_paired)
  next
    fix x e assume "ResponseDefinition_Validate n h (snd x) = Ok e"
    then show "paired_opt e" by (intro tidy_opt_paired ResponseDefinition_Validate_tidy)
  next
    fix x v assume "paired (v :: verrs)"
    then show "paired (duplicate_statuses (Responses a) (fst x) (snd x) v)
       \<and> entries (duplicate_statuses (Responses a) (fst x) (snd x) v)
          = entries v @ duplicate_pairs (Responses a) (fst x) (snd x)"
      by (rule duplicate_statuses_entries)
  qed
  have tpe: "tidy_opt pe" using pe by (rule ActionDefinition_ValidateParams_tidy)
  have w2: "paired (Merge_if v1 pe)" using m tpe by (simp add: tidy_opt_paired)
  have "\<exists>ye. tidy_opt ye \<and> aside_opt ye \<and> v3 = Merge_if (Merge_if v1 pe) ye"
  proof (cases "Payload a")
    case None
    with py have "v3 = Merge_if (Merge_if v1 pe) None" by (simp add: Merge_if_def)
    then show ?thesis by (intro exI [of _ None]) simp
  next
    case (Some p)
    with py obtain ye where
      "UserTypeDefinition_Validate n h ''action payload'' (ActionDef a) (user_types h p) = Ok ye"
      and "v3 = Merge_if (Merge_if v1 pe) ye"
      by (auto simp: bind_eq_Ok)
    then show ?thesis
      using UserTypeDefinition_Validate_tidy [of n h "''action payload''" "ActionDef a" "user_types h p" ye]
        UserTypeDefinition_Validate_aside [of n h "''action payload''" "ActionDef a" "user_types h p" ye]
      by (intro exI [of _ ye]) simp
  qed
  then obtain ye where tye: "tidy_opt ye" and aye: "aside_opt ye"
    and v3: "v3 = Merge_if (Merge_if v1 pe) ye" by blast
  have w3: "paired v3" using v3 w2 tye by (simp add: tidy_opt_paired)
  let ?B = "reported (Ok ye) @ (if act_Parent a = None then [(''missing parent resource'', ActionDef a)] else [])"
  have nm: "\<And>v. tidy v \<Longrightarrow> list_all (\<lambda>p. noM (fst p)) (entries v)"
    by (auto simp: tidy_def entries_def list_all_iff dest: set_zip_leftD)
  have A: "list_all (\<lambda>p. noM (fst p)) (entries ?v0)" using t0 by (rule nm)
  have B: "list_all (\<lambda>p. noM (fst p)) ?B"
    using tye nm by (cases ye) auto
  have A': "list_all (\<lambda>p. \<not> is_ResponseDef (snd p)) (entries ?v0)"
    by (rule aside_entries) simp
  have B': "list_all (\<lambda>p. \<not> is_ResponseDef (snd p)) ?B"
    using aside_reported [OF aye] by simp
  have "reported (Ok r) = entries ?v0 @ concat (map (\<lambda>x. duplicate_pairs (Responses a) (fst x) (snd x)
                                     @ reported (ResponseDefinition_Validate n h (snd x)))
                            (enumerate 0 (Responses a)))
              @ reported (ActionDefinition_ValidateParams n h a) @ ?B"
    using r w3 v3 w2 m tpe pe by (simp add: tidy_opt_paired)
  moreover have "\<forall>x \<in> set (Responses a). \<exists>e. ResponseDefinition_Validate n h x = Ok e"
  proof
    fix x assume "x \<in> set (Responses a)"
    then have "x \<in> snd ` set (enumerate 0 (Responses a))"
      by (metis map_snd_enumerate set_map)
    then show "\<exists>e. ResponseDefinition_Validate n h x = Ok e" using m by auto
  qed
  ultimately show ?thesis using A B A' B' by blast
qed

lemma count_list_concat_enumerate:
  "count_list (concat (map rep xs)) e
     \<le> count_list (concat (map (\<lambda>x. P x @ rep (snd x)) (enumerate k xs))) e"
proof (induction xs arbitrary: k)
  case Nil
  then show ?case by simp
next
  case (Cons x xs)
  from Cons [of "Suc k"] show ?case by simp
qed

lemma ResponseDefinition_Validate_zero_status:
  assumes "ResponseDefinition_Validate n h x = Ok e" and "Status x = 0"
  shows "(''response status not defined'', ResponseDef x) \<in> set (reported (Ok e))"
proof -
  have "\<exists>v. tidy v \<and> e = AsError (Add v (ResponseDef x) ''response status not defined'')"
  proof (cases "Headers x")
    case None
    with assms have "e = AsError (Add new_ValidationErrors (ResponseDef x) ''response status not defined'')"
      by (simp add: ResponseDefinition_Validate_def)
    then show ?thesis using tidy_new by blast
  next
    case (Some hd)
    with assms obtain he where
      he: "AttributeDefinition_Validate n h ''response headers'' (ResponseDef x) (Some hd) = Ok he"
      and e: "e = AsError (Add (Merge_if new_ValidationErrors he) (ResponseDef x) ''response status not defined'')"
      by (auto simp: ResponseDefinition_Validate_def bind_eq_Ok)
    have "tidy_opt he" using he by (rule AttributeDefinition_Validate_tidy) simp
    then have "tidy (Merge_if new_ValidationErrors he)" by simp
    with e show ?thesis by blast
  qed
  then show ?thesis by (auto simp: tidy_paired)
qed

section \<open>Panics on unresolved references\<close>

text \<open>
  Claim C1. Every violation, an unresolved or ill-typed cross-reference among them,
  should be recorded and the walk should go on: no input should make \<^verbatim>\<open>Validate\<close>
  crash. The code records the failure and then uses the reference all the same. A link
  with no parent media type panics in \<^verbatim>\<open>l.Parent.ToObject()\<close>; a link whose matched
  attribute is not of a media type panics in the loop over \<^verbatim>\<open>mediaType.Views\<close>; a
  media type with an attribute that names a view and is not of a media type panics in
  \<^verbatim>\<open>cmt.Views\<close>; an action parameter whose type is nil panics in
  \<^verbatim>\<open>p.Type.Kind()\<close>, and with it the validation of the whole API.
\<close>

theorem Validate_panics_on_unresolved_reference:
  "LinkDefinition_Validate n h orphan_link = Panic NilDereference
   \<and> LinkDefinition_Validate (Suc n) post_heap author_link = Panic NilDereference
   \<and> MediaTypeDefinition_Validate E (Suc (Suc n)) viewed_heap 1 = Panic NilDereference
   \<and> ActionDefinition_Validate n untyped_param_heap show_action = Panic NilDereference
   \<and> APIDefinition_Validate E (Suc n) untyped_param_heap show_api = Panic NilDereference"
proof -
  have 0: "MediaTypeDefinition_Validate E (Suc (Suc n)) viewed_heap 1 = Panic NilDereference"
    by (simp add: MediaTypeDefinition_Validate_def UserTypeDefinition_Validate_def
        MediaType_defaults_def MediaType_object_def MediaType_attribute_def viewed_heap_def
        empty_heap_def attribute_of_def default_Identifier_def default_Type_def
        new_ValidationErrors_def AsError_def Merge_if_def check_validations_def Let_def
        AttributeDefinition_Validate.simps)
  have 1: "LinkDefinition_Validate n h orphan_link = Panic NilDereference"
    by (simp add: LinkDefinition_Validate_def orphan_link_def)
  have 2: "LinkDefinition_Validate (Suc n) post_heap author_link = Panic NilDereference"
    by (simp add: LinkDefinition_Validate_def author_link_def post_heap_def empty_heap_def
        attribute_of_def)
  have 3: "ActionDefinition_Validate n untyped_param_heap show_action = Panic NilDereference" for n
    by (simp add: ActionDefinition_Validate_def ActionDefinition_ValidateParams_def
        Action_parameter_def show_action_def untyped_param_heap_def empty_heap_def attribute_of_def
        new_ValidationErrors_def Add_def)
  have 4: "ResourceDefinition_Validate E (Suc n) untyped_param_heap show_resource = Panic NilDereference"
    by (simp add: ResourceDefinition_Validate_def show_resource_def 3 new_ValidationErrors_def)
  have 5: "AttributeDefinition_Validate (Suc n) untyped_param_heap ''base parameters''
             (APIDef show_api) (Some 3) = Ok None"
    by (simp add: untyped_param_heap_def empty_heap_def attribute_of_def check_validations_def
        new_ValidationErrors_def AsError_def AttributeDefinition_Validate.simps)
  have 6: "APIDefinition_Validate E (Suc n) untyped_param_heap show_api = Panic NilDereference"
    unfolding APIDefinition_Validate_def Let_def
    by (simp add: 4 5 [unfolded show_api_def] show_api_def Merge_if_def)
  from 0 1 2 3 6 show ?thesis by blast
qed

section \<open>Base path variables and base parameters\<close>

lemma unmatched_variables_paired:
  "paired verr \<Longrightarrow> paired (unmatched_variables r [] vars verr)"
  unfolding unmatched_variables_def
  by (induction vars arbitrary: verr) simp_all

lemma unmatched_variables_none_declared:
  "paired verr \<Longrightarrow>
   length (entries (unmatched_variables r [] vars verr)) = length (entries verr) + length vars"
  unfolding unmatched_variables_def
  by (induction vars arbitrary: verr) simp_all

text \<open>
  Claim C3. For the resource with base path \<^verbatim>\<open>/things/{id}\<close> and base parameters an
  object with no field, validation should report exactly one failure, the variable
  \<^verbatim>\<open>id\<close> that no base parameter matches. The code takes the result of
  \<^verbatim>\<open>FindAllStringSubmatch\<close>, one entry for each match, tests \<^verbatim>\<open>len(vs) > 1\<close> and
  reads the variables from \<^verbatim>\<open>vs[1]\<close>, the second match: with the one variable of this
  path it goes to the other branch and reports nothing. Whatever the regular expression,
  it never reports exactly one failure for this resource.
\<close>

theorem things_resource_reports_nothing:
  "ResourceDefinition_Validate (E\<lparr>FindAllStringSubmatch := ParamsRegex_FindAllStringSubmatch\<rparr>)
      n things_heap things_resource = Ok None
   \<and> length (failures (ResourceDefinition_Validate E n things_heap things_resource)) \<noteq> 1"
proof -
  have a: "ResourceDefinition_Validate (E\<lparr>FindAllStringSubmatch := ParamsRegex_FindAllStringSubmatch\<rparr>)
      n things_heap things_resource = Ok None"
    by (simp add: ResourceDefinition_Validate_def Resource_BaseParams_def things_resource_def
        things_heap_def empty_heap_def attribute_of_def ParamsRegex_FindAllStringSubmatch_def
        new_ValidationErrors_def AsError_def)
  have b: "length (failures (ResourceDefinition_Validate E n things_heap things_resource)) \<noteq> 1"
  proof -
    let ?vs = "FindAllStringSubmatch E ''/things/{id}''"
    consider "\<not> 1 < length ?vs \<or> ?vs ! 1 = []" | "1 < length ?vs" and "?vs ! 1 \<noteq> []"
      by blast
    then show ?thesis
    proof cases
      case 1
      then have "ResourceDefinition_Validate E n things_heap things_resource = Ok None"
        by (auto simp: ResourceDefinition_Validate_def Resource_BaseParams_def things_resource_def
            things_heap_def empty_heap_def attribute_of_def new_ValidationErrors_def AsError_def
            unmatched_variables_def Let_def)
      then show ?thesis by (simp add: failures_def)
    next
      case 2
      then obtain verr where p: "paired verr" and e: "length (entries verr) = 1"
        and r: "ResourceDefinition_Validate E n things_heap things_resource
                  = Ok (AsError (unmatched_variables things_resource [] (?vs ! 1) verr))"
        by (intro that [of "Add new_ValidationErrors (ResourceDef things_resource)
              (''BasePath defines parameters ''
               @ join [join (butlast (?vs ! 1)) '', '', last (?vs ! 1)] '' and ''
               @ '' but BaseParams has '' @ fmt_d (int 0) @ '' elements'')"])
           (simp_all add: ResourceDefinition_Validate_def Resource_BaseParams_def
              things_resource_def things_heap_def empty_heap_def attribute_of_def Let_def)
      have "length (failures (ResourceDefinition_Validate E n things_heap things_resource))
              = 1 + length (?vs ! 1)"
        using p e
        by (simp add: r failures_def unmatched_variables_paired unmatched_variables_none_declared)
      with 2 show ?thesis by simp
    qed
  qed
  from a b show ?thesis by blast
qed

section \<open>Defaults of a media type\<close>

text \<open>
  Claim C4. For a media type with no identifier and no type, \<^verbatim>\<open>Validate\<close> should fill
  in \<^verbatim>\<open>plain/text\<close> and the primitive string type before anything reads them, and
  report neither as missing. The code validates the embedded user type first, whose
  attribute check reads the type, finds it nil and reports \<^verbatim>\<open>attribute type is nil\<close>;
  only then are the defaults written. A second run on the heap the first one left reports
  nothing and leaves the heap as it is.
\<close>

theorem bottle_media_type_reports_nil_type:
  "MediaTypeDefinition_Validate E (Suc n) bottle_heap 1
     = Ok (bottle_heap_defaulted,
           Some \<lparr>Errors = [''attribute type is nil''], Definitions = [MediaTypeDef 1]\<rparr>)
   \<and> MediaTypeDefinition_Validate (E\<lparr>ParseMediaType := (\<lambda>identifier. None)\<rparr>) (Suc n)
        bottle_heap_defaulted 1
     = Ok (bottle_heap_defaulted, None)"
  by (simp add: MediaTypeDefinition_Validate_def UserTypeDefinition_Validate_def bottle_heap_def
      bottle_heap_defaulted_def empty_heap_def attribute_of_def new_ValidationErrors_def
      AsError_def Add_def Merge_if_def Merge_def default_Identifier_def default_Type_def Let_def
      check_validations_def AttributeDefinition_Validate.simps MediaType_defaults_def
      MediaType_object_def)


section \<open>Responses validated twice, duplicate status codes\<close>

text \<open>
  Claim C10. For every action whose \<^verbatim>\<open>Params\<close> is not nil each response should be
  validated twice, in the loop of \<^verbatim>\<open>Validate\<close> and again at the end of
  \<^verbatim>\<open>ValidateParams\<close>, so that a failure of a response, such as a status that is not
  set, appears twice in the set that \<^verbatim>\<open>Validate\<close> returns. The action
  \<^verbatim>\<open>crashing_action\<close> has parameters, and a response whose status is not set, for which
  \<^verbatim>\<open>ResponseDefinition.Validate\<close> reports the failure; the type of its parameter
  \<^verbatim>\<open>id\<close> is nil. \<^verbatim>\<open>ValidateParams\<close> records this and then calls
  \<^verbatim>\<open>p.Type.Kind()\<close>: it panics before its loop over the responses, the second
  validation never happens, \<^verbatim>\<open>Validate\<close> returns no set and the failure of the
  response appears in none.
\<close>

theorem ActionDefinition_Validate_second_pass_lost:
  "act_Params crashing_action = Some 1
   \<and> Responses crashing_action = [ok_response, cached_response, unset_response]
   \<and> Status unset_response = 0
   \<and> ResponseDefinition_Validate n untyped_param_heap unset_response =
       Ok (Some \<lparr>Errors = [''response status not defined''],
                 Definitions = [ResponseDef unset_response]\<rparr>)
   \<and> ActionDefinition_ValidateParams n untyped_param_heap crashing_action = Panic NilDereference
   \<and> ActionDefinition_Validate n untyped_param_heap crashing_action = Panic NilDereference
   \<and> count_list (reported (ActionDefinition_Validate n untyped_param_heap crashing_action))
        (''response status not defined'', ResponseDef unset_response) = 0"
proof -
  have p: "ActionDefinition_ValidateParams n untyped_param_heap crashing_action = Panic NilDereference"
    by (simp add: ActionDefinition_ValidateParams_def Action_parameter_def crashing_action_def
        untyped_param_heap_def empty_heap_def attribute_of_def new_ValidationErrors_def Add_def)
  have r: "ResponseDefinition_Validate n untyped_param_heap unset_response =
       Ok (Some \<lparr>Errors = [''response status not defined''],
                 Definitions = [ResponseDef unset_response]\<rparr>)"
    by (simp add: ResponseDefinition_Validate_def unset_response_def new_ValidationErrors_def
        Add_def AsError_def)
  have f: "act_Name crashing_action = ''list''" "Routes crashing_action \<noteq> []"
    "Responses crashing_action = [ok_response, cached_response, unset_response]"
    by (simp_all add: crashing_action_def)
  have v: "ActionDefinition_Validate n untyped_param_heap crashing_action = Panic NilDereference"
    by (simp add: ActionDefinition_Validate_def p f ResponseDefinition_Validate_def
        ok_response_def cached_response_def unset_response_def Let_def)
  show ?thesis
    by (simp add: p r v reported_def) (simp add: crashing_action_def unset_response_def)
qed

text \<open>
  When \<^verbatim>\<open>ActionDefinition.Validate\<close> does return for an action whose \<^verbatim>\<open>Params\<close> is
  not nil, every response has been validated twice: a failure recorded against a
  response, other than the duplicate-status failure, occurs in the returned set exactly
  twice as often as in the results of the responses taken together; so the failure for a
  status that is not set occurs there, an even number of times and at least twice.
\<close>

lemma count_list_concat_enumerate_eq:
  "(\<And>x. e \<notin> set (P x))
   \<Longrightarrow> count_list (concat (map (\<lambda>x. P x @ rep (snd x)) (enumerate k xs))) e
       = count_list (concat (map rep xs)) e"
proof (induction xs arbitrary: k)
  case Nil
  then show ?case by simp
next
  case (Cons x xs)
  from Cons.IH [of "Suc k"] Cons.prems show ?case by (simp add: count_list_0_iff)
qed

lemma aside_count:
  "list_all (\<lambda>p. \<not> is_ResponseDef (snd p)) A \<Longrightarrow> is_ResponseDef (snd e) \<Longrightarrow> count_list A e = 0"
  by (auto simp: count_list_0_iff list_all_iff)

lemma noM_not_duplicate_pair: "noM (fst e) \<Longrightarrow> e \<notin> set (duplicate_pairs rs i r)"
  by (auto simp: duplicate_pairs_def duplicate_status_msg_def noM_def)

lemma ActionDefinition_Validate_responses_twice:
  assumes "ActionDefinition_Validate n h a = Ok r" and "act_Params a \<noteq> None"
  shows "(is_ResponseDef (snd e) \<and> noM (fst e) \<longrightarrow>
            count_list (reported (Ok r)) e
              = 2 * count_list (concat (map (\<lambda>x. reported (ResponseDefinition_Validate n h x))
                                          (Responses a))) e)
         \<and> (\<forall>x \<in> set (Responses a). Status x = 0 \<longrightarrow>
               even (count_list (reported (Ok r)) (''response status not defined'', ResponseDef x))
               \<and> 2 \<le> count_list (reported (Ok r)) (''response status not defined'', ResponseDef x))"
proof -
  let ?rep = "\<lambda>x. reported (ResponseDefinition_Validate n h x)"
  let ?all = "concat (map ?rep (Responses a))"
  from ActionDefinition_Validate_reported [OF assms(1)] obtain A B where
    ok: "\<forall>x \<in> set (Responses a). \<exists>e. ResponseDefinition_Validate n h x = Ok e"
    and A: "list_all (\<lambda>p. \<not> is_ResponseDef (snd p)) A"
    and B: "list_all (\<lambda>p. \<not> is_ResponseDef (snd p)) B"
    and r: "reported (Ok r) =
              A @ concat (map (\<lambda>x. duplicate_pairs (Responses a) (fst x) (snd x) @ ?rep (snd x))
                            (enumerate 0 (Responses a)))
              @ reported (ActionDefinition_ValidateParams n h a) @ B" by blast
  from assms(1) obtain pe where pe: "ActionDefinition_ValidateParams n h a = Ok pe"
    by (auto simp: ActionDefinition_Validate_def Let_def bind_eq_Ok)
  from ActionDefinition_ValidateParams_responses [OF pe assms(2)] obtain X where
    X: "list_all (\<lambda>p. \<not> is_ResponseDef (snd p)) X" and pX: "reported (Ok pe) = X @ ?all" by blast
  have tw: "count_list (reported (Ok r)) e = 2 * count_list ?all e"
    if e: "is_ResponseDef (snd e)" and m: "noM (fst e)" for e
  proof -
    have "count_list (concat (map (\<lambda>x. duplicate_pairs (Responses a) (fst x) (snd x) @ ?rep (snd x))
                            (enumerate 0 (Responses a)))) e = count_list ?all e"
      by (rule count_list_concat_enumerate_eq) (rule noM_not_duplicate_pair [OF m])
    then show ?thesis
      by (simp add: r pe pX aside_count [OF A e] aside_count [OF B e] aside_count [OF X e])
  qed
  have "even (count_list (reported (Ok r)) (''response status not defined'', ResponseDef x))
        \<and> 2 \<le> count_list (reported (Ok r)) (''response status not defined'', ResponseDef x)"
    if x: "x \<in> set (Responses a)" and s: "Status x = 0" for x
  proof -
    let ?e = "(''response status not defined'', ResponseDef x)"
    from ok x obtain e where "ResponseDefinition_Validate n h x = Ok e" by blast
    then have "?e \<in> set (?rep x)"
      using ResponseDefinition_Validate_zero_status [OF _ s] by simp
    with x have "?e \<in> set ?all" by auto
    then have "count_list ?all ?e \<noteq> 0" by (simp add: count_list_0_iff)
    moreover have "count_list (reported (Ok r)) ?e = 2 * count_list ?all ?e"
      by (rule tw) (simp_all add: noM_def)
    ultimately show ?thesis by simp
  qed
  with tw show ?thesis by blast
qed

lemma fmt_d_200: "fmt_d 200 = ''200''"
  by (simp add: fmt_d_def digits.simps digit_char_def)

lemma list_action_result:
  "ActionDefinition_Validate (Suc n) list_heap list_action =
     Ok (Some \<lparr>Errors = [''Multiple response definitions with status code 200'',
                         ''Multiple response definitions with status code 200'',
                         ''response status not defined'', ''response status not defined''],
               Definitions = [ResponseDef ok_response, ResponseDef cached_response,
                              ResponseDef unset_response, ResponseDef unset_response]\<rparr>)"
  by (simp add: ActionDefinition_Validate_def ActionDefinition_ValidateParams_def
      Action_parameter_def ResponseDefinition_Validate_def duplicate_statuses_def
      duplicate_status_msg_def fmt_d_200 list_action_def list_heap_def empty_heap_def
      attribute_of_def ok_response_def cached_response_def unset_response_def
      new_ValidationErrors_def Add_def Merge_if_def Merge_def AsError_def check_validations_def
      AttributeDefinition_Validate.simps Let_def)

lemma ActionDefinition_Validate_responses_twice_example:
  "ActionDefinition_Validate 1 list_heap list_action =
     Ok (Some \<lparr>Errors = [''Multiple response definitions with status code 200'',
                         ''Multiple response definitions with status code 200'',
                         ''response status not defined'', ''response status not defined''],
               Definitions = [ResponseDef ok_response, ResponseDef cached_response,
                              ResponseDef unset_response, ResponseDef unset_response]\<rparr>)
   \<and> act_Params list_action \<noteq> None
   \<and> unset_response \<in> set (Responses list_action) \<and> Status unset_response = 0
   \<and> count_list (reported (ActionDefinition_Validate 1 list_heap list_action))
            (''response status not defined'', ResponseDef unset_response) = 2"
proof -
  let ?r = "Some \<lparr>Errors = [''Multiple response definitions with status code 200'',
                         ''Multiple response definitions with status code 200'',
                         ''response status not defined'', ''response status not defined''],
               Definitions = [ResponseDef ok_response, ResponseDef cached_response,
                              ResponseDef unset_response, ResponseDef unset_response]\<rparr>"
  have v: "ActionDefinition_Validate 1 list_heap list_action = Ok ?r"
    using list_action_result [of 0] by simp
  have p: "act_Params list_action \<noteq> None" by (simp add: list_action_def)
  have x: "unset_response \<in> set (Responses list_action)" by (simp add: list_action_def)
  have s: "Status unset_response = 0" by (simp add: unset_response_def)
  have "count_list (reported (Ok ?r)) (''response status not defined'', ResponseDef unset_response)
          = 2 * count_list (concat (map (\<lambda>x. reported (ResponseDefinition_Validate 1 list_heap x))
                                      (Responses list_action)))
                  (''response status not defined'', ResponseDef unset_response)"
    using ActionDefinition_Validate_responses_twice [OF v p,
        of "(''response status not defined'', ResponseDef unset_response)"]
    by (simp add: noM_def)
  also have "\<dots> = 2"
    by (simp add: list_action_def ResponseDefinition_Validate_def ok_response_def
        cached_response_def unset_response_def new_ValidationErrors_def Add_def AsError_def
        Merge_if_def reported_def entries_def)
  finally show ?thesis using v p x s by simp
qed

lemma digit_char_code: "d < 10 \<Longrightarrow> of_char (digit_char d) = (48 + d :: nat)"
proof -
  assume "d < 10"
  then have "d \<in> {0, 1, 2, 3, 4, 5, 6, 7, 8, 9}" by auto
  then show ?thesis by (auto simp: digit_char_def)
qed

lemma digit_char_mod: "digit_char n = digit_char (n mod 10)"
  by (simp add: digit_char_def)

lemma digit_char_inj: "digit_char a = digit_char b \<Longrightarrow> a mod 10 = b mod 10"
proof -
  assume "digit_char a = digit_char b"
  then have "digit_char (a mod 10) = digit_char (b mod 10)"
    using digit_char_mod by metis
  then have "(of_char (digit_char (a mod 10)) :: nat) = of_char (digit_char (b mod 10))" by simp
  then show ?thesis by (simp add: digit_char_code)
qed

lemma digit_char_not_minus: "digit_char d \<noteq> CHR ''-''"
proof
  assume "digit_char d = CHR ''-''"
  then have "(of_char (digit_char (d mod 10)) :: nat) = of_char CHR ''-''"
    using digit_char_mod by metis
  then show False by (simp add: digit_char_code)
qed

lemma digits_not_Nil: "digits n \<noteq> []"
  by (subst digits.simps) simp

lemma hd_digits_not_minus: "hd (digits n) \<noteq> CHR ''-''"
proof (induction n rule: digits.induct)
  case (1 n)
  show ?case
  proof (cases "n < 10")
    case True
    then show ?thesis by (subst digits.simps) (simp add: digit_char_not_minus)
  next
    case False
    with 1 show ?thesis by (subst digits.simps) (simp add: digits_not_Nil)
  qed
qed

lemma digits_inj: "digits n = digits m \<Longrightarrow> n = m"
proof (induction n arbitrary: m rule: digits.induct)
  case (1 n)
  show ?case
  proof (cases "n < 10")
    case True
    note n = this
    show ?thesis
    proof (cases "m < 10")
      case True
      from "1.prems" n True have "digit_char n = digit_char m"
        by (simp add: digits.simps [of n] digits.simps [of m])
      from digit_char_inj [OF this] n True show ?thesis by simp
    next
      case False
      from "1.prems" n False have "digits (m div 10) = []"
        by (simp add: digits.simps [of n] digits.simps [of m])
      then show ?thesis by (simp add: digits_not_Nil)
    qed
  next
    case False
    note n = this
    show ?thesis
    proof (cases "m < 10")
      case True
      from "1.prems" n True have "digits (n div 10) = []"
        by (simp add: digits.simps [of n] digits.simps [of m])
      then show ?thesis by (simp add: digits_not_Nil)
    next
      case False
      from "1.prems" n False have d: "digits (n div 10) = digits (m div 10)"
        and c: "digit_char n = digit_char m"
        by (simp_all add: digits.simps [of n] digits.simps [of m])
      from "1.IH" [OF n d] have "n div 10 = m div 10" .
      moreover from digit_char_inj [OF c] have "n mod 10 = m mod 10" .
      ultimately show ?thesis by (metis div_mult_mod_eq)
    qed
  qed
qed

lemma fmt_d_inj: "fmt_d a = fmt_d b \<Longrightarrow> a = b"
proof -
  assume e: "fmt_d a = fmt_d b"
  have neg: "hd (fmt_d i) = CHR ''-'' \<longleftrightarrow> i < 0" for i
    using hd_digits_not_minus [of "nat i"] by (simp add: fmt_d_def)
  from e neg [of a] neg [of b] have s: "a < 0 \<longleftrightarrow> b < 0" by simp
  show ?thesis
  proof (cases "a < 0")
    case True
    with s e have "digits (nat (- a)) = digits (nat (- b))" by (simp add: fmt_d_def)
    from digits_inj [OF this] True s show ?thesis by simp
  next
    case False
    with s e have "digits (nat a) = digits (nat b)" by (simp add: fmt_d_def)
    from digits_inj [OF this] False s show ?thesis by simp
  qed
qed

lemma duplicate_status_msg_inj [simp]: "duplicate_status_msg a = duplicate_status_msg b \<longleftrightarrow> a = b"
  by (auto simp: duplicate_status_msg_def dest: fmt_d_inj)

lemma enumerate_nth: "enumerate 0 xs = map (\<lambda>i. (i, xs ! i)) [0 ..< length xs]"
  by (rule nth_equalityI) (simp_all add: nth_enumerate_eq)

lemma duplicate_pairs_index:
  "i < length rs \<Longrightarrow> duplicate_pairs rs i (rs ! i) =
     map (\<lambda>j. (duplicate_status_msg (Status (rs ! i)), ResponseDef (rs ! i)))
       (filter (\<lambda>j. i \<noteq> j \<and> Status (rs ! i) = Status (rs ! j)) [0 ..< length rs])"
  by (simp add: duplicate_pairs_def enumerate_nth filter_map o_def)

lemma concat_product:
  "concat (map (\<lambda>i. map (\<lambda>j. f i) (filter (Q i) js)) is)
     = map (\<lambda>(i, j). f i) (filter (\<lambda>(i, j). Q i j) (List.product is js))"
  by (induction "is") (simp_all add: filter_map o_def)

lemma all_duplicate_pairs:
  "concat (map (\<lambda>x. duplicate_pairs rs (fst x) (snd x)) (enumerate 0 rs))
     = map (\<lambda>(i, j). (duplicate_status_msg (Status (rs ! i)), ResponseDef (rs ! i))) (status_pairs rs)"
proof -
  have "concat (map (\<lambda>x. duplicate_pairs rs (fst x) (snd x)) (enumerate 0 rs))
      = concat (map (\<lambda>i. duplicate_pairs rs i (rs ! i)) [0 ..< length rs])"
    by (simp add: enumerate_nth o_def)
  also have "\<dots> = concat (map (\<lambda>i. map (\<lambda>j. (duplicate_status_msg (Status (rs ! i)), ResponseDef (rs ! i)))
       (filter (\<lambda>j. i \<noteq> j \<and> Status (rs ! i) = Status (rs ! j)) [0 ..< length rs])) [0 ..< length rs])"
    by (rule arg_cong [where f = concat]) (simp add: duplicate_pairs_index)
  also have "\<dots> = map (\<lambda>(i, j). (duplicate_status_msg (Status (rs ! i)), ResponseDef (rs ! i))) (status_pairs rs)"
    unfolding status_pairs_def by (rule concat_product)
  finally show ?thesis .
qed

lemma filter_duplicates_concat:
  "(\<And>x. x \<in> set xs \<Longrightarrow> list_all (\<lambda>p. noM (fst p)) (rep x))
   \<Longrightarrow> (\<And>x. x \<in> set xs \<Longrightarrow> list_all (\<lambda>p. is_duplicate_status (fst p)) (D x))
   \<Longrightarrow> filter (\<lambda>p. is_duplicate_status (fst p)) (concat (map (\<lambda>x. D x @ rep x) xs))
       = concat (map D xs)"
proof (induction xs)
  case Nil
  then show ?case by simp
next
  case (Cons x xs)
  have a: "filter (\<lambda>p. is_duplicate_status (fst p)) (rep x) = []"
    using Cons.prems(1) [of x] by (auto simp: filter_empty_conv list_all_iff dest: noM_not_duplicate)
  have b: "filter (\<lambda>p. is_duplicate_status (fst p)) (D x) = D x"
    using Cons.prems(2) [of x] by (auto simp: filter_id_conv list_all_iff)
  show ?case using a b Cons by simp
qed

lemma filter_noM: "list_all (\<lambda>p. noM (fst p)) A \<Longrightarrow> filter (\<lambda>p. is_duplicate_status (fst p)) A = []"
  by (auto simp: filter_empty_conv list_all_iff dest: noM_not_duplicate)

lemma tidy_reported: "tidy_opt e \<Longrightarrow> list_all (\<lambda>p. noM (fst p)) (reported (Ok e))"
  by (cases e) (auto simp: tidy_def entries_def list_all_iff dest: set_zip_leftD)

lemma count_status_pairs:
  assumes "length (filter (\<lambda>x. Status x = s) rs) = 2"
  shows "length (filter (\<lambda>(i, j). Status (rs ! i) = s) (status_pairs rs)) = 2"
proof -
  let ?S = "{i. i < length rs \<and> Status (rs ! i) = s}"
  have "card ?S = 2" using assms by (simp add: length_filter_conv_card)
  then obtain p q where S: "?S = {p, q}" and pq: "p \<noteq> q" by (auto simp: card_2_iff)
  have d: "distinct (List.product [0 ..< length rs] [0 ..< length rs])"
    by (simp add: distinct_product)
  have "filter (\<lambda>(i, j). Status (rs ! i) = s) (status_pairs rs)
      = filter (\<lambda>(i, j). i \<noteq> j \<and> Status (rs ! i) = s \<and> Status (rs ! j) = s)
          (List.product [0 ..< length rs] [0 ..< length rs])"
    unfolding status_pairs_def by (auto intro!: filter_cong)
  then have "length (filter (\<lambda>(i, j). Status (rs ! i) = s) (status_pairs rs))
      = card ({x. (\<lambda>(i, j). i \<noteq> j \<and> Status (rs ! i) = s \<and> Status (rs ! j) = s) x}
               \<inter> set (List.product [0 ..< length rs] [0 ..< length rs]))"
    using d by (simp add: distinct_length_filter)
  also have "{x. (\<lambda>(i, j). i \<noteq> j \<and> Status (rs ! i) = s \<and> Status (rs ! j) = s) x}
               \<inter> set (List.product [0 ..< length rs] [0 ..< length rs])
           = {(i, j). i \<in> ?S \<and> j \<in> ?S \<and> i \<noteq> j}" by auto
  also have "\<dots> = {(p, q), (q, p)}" unfolding S using pq by auto
  also have "card \<dots> = 2" using pq by simp
  finally show ?thesis .
qed

text \<open>
  Claim C7. For every action with exactly two responses of one status code
  \<^verbatim>\<open>Validate\<close> should report the duplicate-status failure once for each ordered pair
  of distinct indices with equal status, twice for the two responses. The action
  \<^verbatim>\<open>crashing_action\<close> has exactly two responses with status 200, at the indices 0 and
  1, and a parameter \<^verbatim>\<open>id\<close> whose type is nil. The duplicate check of the loop over
  the responses adds the two failures to \<^verbatim>\<open>verr\<close>; then \<^verbatim>\<open>ValidateParams\<close> calls \<^verbatim>\<open>p.Type.Kind()\<close> on the nil
  type and panics, \<^verbatim>\<open>Validate\<close> returns no set, and no duplicate-status failure is
  reported.
\<close>

theorem ActionDefinition_Validate_duplicates_lost:
  "length (filter (\<lambda>x. Status x = 200) (Responses crashing_action)) = 2
   \<and> status_pairs (Responses crashing_action) = [(0, 1), (1, 0)]
   \<and> entries (foldl (\<lambda>verr (i, r). duplicate_statuses (Responses crashing_action) i r verr)
                 new_ValidationErrors (enumerate 0 (Responses crashing_action)))
       = [(''Multiple response definitions with status code 200'', ResponseDef ok_response),
          (''Multiple response definitions with status code 200'', ResponseDef cached_response)]
   \<and> ActionDefinition_Validate n untyped_param_heap crashing_action = Panic NilDereference
   \<and> filter (\<lambda>p. is_duplicate_status (fst p))
        (reported (ActionDefinition_Validate n untyped_param_heap crashing_action)) = []"
proof -
  have c: "length (filter (\<lambda>x. Status x = 200) (Responses crashing_action)) = 2"
    by (simp add: crashing_action_def ok_response_def cached_response_def unset_response_def)
  have sp: "status_pairs (Responses crashing_action) = [(0, 1), (1, 0)]"
    by (simp add: status_pairs_def crashing_action_def ok_response_def cached_response_def
        unset_response_def upt_rec [of 0] upt_rec [of 1] upt_rec [of 2] upt_rec [of 3]
        numeral_3_eq_3)
  have d: "entries (foldl (\<lambda>verr (i, r). duplicate_statuses (Responses crashing_action) i r verr)
                 new_ValidationErrors (enumerate 0 (Responses crashing_action)))
       = [(''Multiple response definitions with status code 200'', ResponseDef ok_response),
          (''Multiple response definitions with status code 200'', ResponseDef cached_response)]"
    by (simp add: duplicate_statuses_def duplicate_status_msg_def fmt_d_200 crashing_action_def
        ok_response_def cached_response_def unset_response_def new_ValidationErrors_def Add_def
        entries_def)
  have p: "ActionDefinition_ValidateParams n untyped_param_heap crashing_action = Panic NilDereference"
    by (simp add: ActionDefinition_ValidateParams_def Action_parameter_def crashing_action_def
        untyped_param_heap_def empty_heap_def attribute_of_def new_ValidationErrors_def Add_def)
  have f: "act_Name crashing_action = ''list''" "Routes crashing_action \<noteq> []"
    "Responses crashing_action = [ok_response, cached_response, unset_response]"
    by (simp_all add: crashing_action_def)
  have v: "ActionDefinition_Validate n untyped_param_heap crashing_action = Panic NilDereference"
    by (simp add: ActionDefinition_Validate_def p f ResponseDefinition_Validate_def
        ok_response_def cached_response_def unset_response_def Let_def)
  show ?thesis
    by (simp add: c sp d v reported_def)
qed

text \<open>
  When \<^verbatim>\<open>ActionDefinition.Validate\<close> does return, the duplicate-status failures of the
  returned set are, in order, one for each ordered pair of distinct indices of responses
  with equal status, recorded against the first response of the pair with its status
  code in the message. So a status code that exactly two responses share is then reported
  exactly twice.
\<close>

lemma ActionDefinition_Validate_duplicate_statuses:
  assumes "ActionDefinition_Validate n h a = Ok r"
  shows "filter (\<lambda>p. is_duplicate_status (fst p)) (reported (Ok r))
           = map (\<lambda>(i, j). (duplicate_status_msg (Status (Responses a ! i)), ResponseDef (Responses a ! i)))
               (status_pairs (Responses a))
         \<and> (length (filter (\<lambda>x. Status x = s) (Responses a)) = 2 \<longrightarrow>
              length (filter (\<lambda>p. fst p = duplicate_status_msg s) (reported (Ok r))) = 2)"
proof -
  let ?rs = "Responses a"
  let ?rep = "\<lambda>x. reported (ResponseDefinition_Validate n h x)"
  let ?dup = "\<lambda>p. is_duplicate_status (fst p)"
  let ?D = "map (\<lambda>(i, j). (duplicate_status_msg (Status (?rs ! i)), ResponseDef (?rs ! i))) (status_pairs ?rs)"
  from ActionDefinition_Validate_reported [OF assms] obtain A B where
    ok: "\<forall>x \<in> set ?rs. \<exists>e. ResponseDefinition_Validate n h x = Ok e"
    and A: "list_all (\<lambda>p. noM (fst p)) A" and B: "list_all (\<lambda>p. noM (fst p)) B"
    and r: "reported (Ok r) =
              A @ concat (map (\<lambda>x. duplicate_pairs ?rs (fst x) (snd x) @ ?rep (snd x)) (enumerate 0 ?rs))
              @ reported (ActionDefinition_ValidateParams n h a) @ B" by blast
  from assms obtain pe where pe: "ActionDefinition_ValidateParams n h a = Ok pe"
    by (auto simp: ActionDefinition_Validate_def Let_def bind_eq_Ok)
  have P: "list_all (\<lambda>p. noM (fst p)) (reported (ActionDefinition_ValidateParams n h a))"
    using ActionDefinition_ValidateParams_tidy [OF pe] pe by (simp add: tidy_reported)
  have mid: "filter ?dup (concat (map (\<lambda>x. duplicate_pairs ?rs (fst x) (snd x) @ ?rep (snd x)) (enumerate 0 ?rs)))
      = concat (map (\<lambda>x. duplicate_pairs ?rs (fst x) (snd x)) (enumerate 0 ?rs))"
  proof (rule filter_duplicates_concat [where rep = "\<lambda>x. ?rep (snd x)"])
    fix x assume "x \<in> set (enumerate 0 ?rs)"
    then have "snd x \<in> set ?rs" by (metis image_eqI map_snd_enumerate set_map)
    with ok obtain e where e: "ResponseDefinition_Validate n h (snd x) = Ok e" by blast
    then show "list_all (\<lambda>p. noM (fst p)) (?rep (snd x))"
      using ResponseDefinition_Validate_tidy [OF e] by (simp add: tidy_reported)
  next
    fix x show "list_all ?dup (duplicate_pairs ?rs (fst x) (snd x))"
      by (simp add: duplicate_pairs_def list_all_iff)
  qed
  have f: "filter ?dup (reported (Ok r)) = ?D"
    by (simp add: r filter_noM [OF A] filter_noM [OF B] filter_noM [OF P] mid all_duplicate_pairs)
  have "length (filter (\<lambda>p. fst p = duplicate_status_msg s) (reported (Ok r))) = 2"
    if c: "length (filter (\<lambda>x. Status x = s) ?rs) = 2"
  proof -
    have "filter (\<lambda>p. fst p = duplicate_status_msg s) (reported (Ok r))
        = filter (\<lambda>p. fst p = duplicate_status_msg s) (filter ?dup (reported (Ok r)))"
      by (auto simp: filter_filter intro!: filter_cong)
    also have "\<dots> = filter (\<lambda>p. fst p = duplicate_status_msg s) ?D" by (simp add: f)
    also have "length \<dots> = length (filter (\<lambda>(i, j). Status (?rs ! i) = s) (status_pairs ?rs))"
      by (simp add: filter_map o_def case_prod_unfold)
    also have "\<dots> = 2" using c by (rule count_status_pairs)
    finally show ?thesis .
  qed
  with f show ?thesis by blast
qed

lemma ActionDefinition_Validate_duplicate_statuses_example:
  "ActionDefinition_Validate 1 list_heap list_action =
     Ok (Some \<lparr>Errors = [''Multiple response definitions with status code 200'',
                         ''Multiple response definitions with status code 200'',
                         ''response status not defined'', ''response status not defined''],
               Definitions = [ResponseDef ok_response, ResponseDef cached_response,
                              ResponseDef unset_response, ResponseDef unset_response]\<rparr>)
   \<and> length (filter (\<lambda>x. Status x = 200) (Responses list_action)) = 2
   \<and> length (filter (\<lambda>p. fst p = duplicate_status_msg 200)
               (reported (ActionDefinition_Validate 1 list_heap list_action))) = 2
   \<and> filter (\<lambda>p. is_duplicate_status (fst p))
        (reported (ActionDefinition_Validate 1 list_heap list_action))
       = [(''Multiple response definitions with status code 200'', ResponseDef ok_response),
          (''Multiple response definitions with status code 200'', ResponseDef cached_response)]"
proof -
  let ?r = "Some \<lparr>Errors = [''Multiple response definitions with status code 200'',
                         ''Multiple response definitions with status code 200'',
                         ''response status not defined'', ''response status not defined''],
               Definitions = [ResponseDef ok_response, ResponseDef cached_response,
                              ResponseDef unset_response, ResponseDef unset_response]\<rparr>"
  have v: "ActionDefinition_Validate 1 list_heap list_action = Ok ?r"
    using list_action_result [of 0] by simp
  have c: "length (filter (\<lambda>x. Status x = 200) (Responses list_action)) = 2"
    by (simp add: list_action_def ok_response_def cached_response_def unset_response_def)
  have sp: "status_pairs (Responses list_action) = [(0, 1), (1, 0)]"
    by (simp add: status_pairs_def list_action_def ok_response_def cached_response_def
        unset_response_def upt_rec [of 0] upt_rec [of 1] upt_rec [of 2] upt_rec [of 3]
        numeral_3_eq_3)
  from ActionDefinition_Validate_duplicate_statuses [OF v, of 200] c sp
  have "length (filter (\<lambda>p. fst p = duplicate_status_msg 200) (reported (Ok ?r))) = 2"
    and "filter (\<lambda>p. is_duplicate_status (fst p)) (reported (Ok ?r))
       = [(''Multiple response definitions with status code 200'', ResponseDef ok_response),
          (''Multiple response definitions with status code 200'', ResponseDef cached_response)]"
    by (simp_all add: list_action_def duplicate_status_msg_def fmt_d_200 ok_response_def
        cached_response_def unset_response_def)
  with v c show ?thesis by simp
qed

section \<open>Termination on acyclic designs\<close>

lemma acyclic_ranked:
  assumes "finite (contains h)" and "acyclic (contains h)"
  shows "\<exists>rk N. ranked h rk N"
proof -
  let ?r = "contains h"
  let ?below = "\<lambda>a. {c. (a, c) \<in> ?r\<^sup>+}"
  have fin: "finite (Range ?r)" using assms(1) by (rule finite_Range)
  have sub: "?below a \<subseteq> Range ?r" for a
    by (auto elim: tranclE)
  have fb: "finite (?below a)" for a
    using sub fin by (rule finite_subset)
  have bound: "card (?below a) < Suc (card (Range ?r))" for a
    using card_mono [OF fin sub [of a]] by simp
  have dec: "card (?below c) < card (?below a)" if e: "(a, c) \<in> ?r" for a c
  proof (rule psubset_card_mono [OF fb])
    have "c \<in> ?below a" using e by auto
    moreover have "c \<notin> ?below c" using assms(2) by (auto simp: acyclic_def)
    moreover have "?below c \<subseteq> ?below a" using e by (auto intro: trancl_into_trancl2)
    ultimately show "?below c \<subset> ?below a" by blast
  qed
  have "ranked h (\<lambda>a. card (?below a)) (Suc (card (Range ?r)))"
    unfolding ranked_def using bound dec by blast
  then show ?thesis by blast
qed

lemma ranked_child:
  "ranked h rk N \<Longrightarrow> c \<in> set (children_of h (Type (attributes h a))) \<Longrightarrow> rk c < rk a"
  by (simp add: ranked_def contains_def)

lemma bind_returns: "m \<noteq> None \<Longrightarrow> (\<And>x. m = Ok x \<Longrightarrow> f x \<noteq> None) \<Longrightarrow> bind m f \<noteq> None"
  by (auto simp: bind_eq_None)

lemma for_each_returns:
  "(\<And>x s. x \<in> set xs \<Longrightarrow> body x s \<noteq> None) \<Longrightarrow> for_each body xs s \<noteq> None"
  by (rule for_each_not_None [where P = "\<lambda>s. True"]) simp_all

lemma DataType_ToObject_returns:
  "ranked h rk N \<Longrightarrow> \<forall>c \<in> set (children_of h t). rk c < n \<Longrightarrow> DataType_ToObject n h t \<noteq> None"
proof (induction n arbitrary: t)
  case 0
  show ?case
  proof (cases t)
    case None
    with "0.prems" show ?thesis by simp
  next
    case (Some d)
    with "0.prems" show ?thesis by (cases d) simp_all
  qed
next
  case (Suc n)
  have step: "DataType_ToObject n h (Type (attributes h b)) \<noteq> None" if "rk b < Suc n" for b
  proof (rule Suc.IH [OF Suc.prems(1)])
    show "\<forall>c \<in> set (children_of h (Type (attributes h b))). rk c < n"
      using ranked_child [OF Suc.prems(1), of _ b] that by fastforce
  qed
  show ?case
  proof (cases t)
    case None
    then show ?thesis by simp
  next
    case (Some d)
    with Suc.prems(2) step show ?thesis by (cases d) simp_all
  qed
qed

lemma DataType_ToArray_returns:
  "ranked h rk N \<Longrightarrow> \<forall>c \<in> set (children_of h t). rk c < n \<Longrightarrow> DataType_ToArray n h t \<noteq> None"
proof (induction n arbitrary: t)
  case 0
  show ?case
  proof (cases t)
    case None
    with "0.prems" show ?thesis by simp
  next
    case (Some d)
    with "0.prems" show ?thesis by (cases d) simp_all
  qed
next
  case (Suc n)
  have step: "DataType_ToArray n h (Type (attributes h b)) \<noteq> None" if "rk b < Suc n" for b
  proof (rule Suc.IH [OF Suc.prems(1)])
    show "\<forall>c \<in> set (children_of h (Type (attributes h b))). rk c < n"
      using ranked_child [OF Suc.prems(1), of _ b] that by fastforce
  qed
  show ?case
  proof (cases t)
    case None
    then show ?thesis by simp
  next
    case (Some d)
    with Suc.prems(2) step show ?thesis by (cases d) simp_all
  qed
qed

lemma DataType_IsArray_returns:
  "ranked h rk N \<Longrightarrow> \<forall>c \<in> set (children_of h t). rk c < n \<Longrightarrow> DataType_IsArray n h t \<noteq> None"
proof (induction n arbitrary: t)
  case 0
  show ?case
  proof (cases t)
    case None
    with "0.prems" show ?thesis by simp
  next
    case (Some d)
    with "0.prems" show ?thesis by (cases d) simp_all
  qed
next
  case (Suc n)
  have step: "DataType_IsArray n h (Type (attributes h b)) \<noteq> None" if "rk b < Suc n" for b
  proof (rule Suc.IH [OF Suc.prems(1)])
    show "\<forall>c \<in> set (children_of h (Type (attributes h b))). rk c < n"
      using ranked_child [OF Suc.prems(1), of _ b] that by fastforce
  qed
  show ?case
  proof (cases t)
    case None
    then show ?thesis by simp
  next
    case (Some d)
    with Suc.prems(2) step show ?thesis by (cases d) simp_all
  qed
qed

lemma DataType_ToArray_element:
  "ranked h rk N \<Longrightarrow> DataType_ToArray n h t = Ok (Some (Some e))
   \<Longrightarrow> \<forall>c \<in> set (children_of h t). rk c < k \<Longrightarrow> rk e < k"
proof (induction n arbitrary: t k)
  case 0
  show ?case
  proof (cases t)
    case None
    with "0.prems" show ?thesis by simp
  next
    case (Some d)
    with "0.prems" show ?thesis by (cases d) simp_all
  qed
next
  case (Suc n)
  have step: "rk e < k" if "DataType_ToArray n h (Type (attributes h b)) = Ok (Some (Some e))"
    and "rk b < k" for b
  proof -
    have "rk e < rk b"
      using Suc.prems(1) that(1)
    proof (rule Suc.IH)
      show "\<forall>c \<in> set (children_of h (Type (attributes h b))). rk c < rk b"
        using ranked_child [OF Suc.prems(1), of _ b] by blast
    qed
    with that(2) show ?thesis by simp
  qed
  show ?case
  proof (cases t)
    case None
    with Suc.prems show ?thesis by simp
  next
    case (Some d)
    with Suc.prems(2,3) step show ?thesis by (cases d) auto
  qed
qed

lemma AttributeDefinition_Validate_returns:
  "ranked h rk N \<Longrightarrow> \<forall>x. a = Some x \<longrightarrow> rk x < n
   \<Longrightarrow> AttributeDefinition_Validate n h ctx parent a \<noteq> None"
proof (induction n arbitrary: a ctx parent)
  case 0
  then show ?case by (cases a) simp_all
next
  case (Suc n)
  show ?case
  proof (cases a)
    case None
    then show ?thesis by simp
  next
    case (Some x)
    with Suc.prems(2) have x: "rk x < Suc n" by simp
    have child: "rk c < n" if "c \<in> set (children_of h (Type (attributes h x)))" for c
      using ranked_child [OF Suc.prems(1) that] x by simp
    show ?thesis
    proof (cases "Type (attributes h x)")
      case None
      with Some show ?thesis by (simp add: ADV_nil_type)
    next
      case (Some t)
      note t = this
      show ?thesis
      proof (cases "is_Object t")
        case True
        then obtain obj where o: "t = Object obj" by (cases t) simp_all
        have to: "Type (attributes h x) = Some (Object obj)" using t o by simp
        have loop: "for_each
               (\<lambda>f verr. bind (AttributeDefinition_Validate n h (''field '' @ fst f) (AttributeDef x) (snd f))
                               (\<lambda>err. Ok (Merge_if verr err)))
               obj v \<noteq> None" for v
        proof (rule for_each_returns)
          fix f s assume f: "f \<in> set obj"
          have "AttributeDefinition_Validate n h (''field '' @ fst f) (AttributeDef x) (snd f) \<noteq> None"
          proof (rule Suc.IH [OF Suc.prems(1)], intro allI impI)
            fix c assume c: "snd f = Some c"
            have "c \<in> set (case f of (nm, att) \<Rightarrow> case att of None \<Rightarrow> [] | Some c \<Rightarrow> [c])"
              using c by (cases f) simp
            with f have "c \<in> set (children_of h (Some (Object obj)))"
              by (simp only: children_of.simps set_concat set_map) blast
            then show "rk c < n" using child to by simp
          qed
          then show "bind (AttributeDefinition_Validate n h (''field '' @ fst f) (AttributeDef x) (snd f))
                               (\<lambda>err. Ok (Merge_if s err)) \<noteq> None"
            by (rule bind_returns) simp
        qed
        show ?thesis unfolding \<open>a = Some x\<close> ADV_object [OF to]
          by (rule bind_returns [OF loop]) simp
      next
        case False
        have ch: "\<forall>c \<in> set (children_of h (Some t)). rk c < n"
          using child t by simp
        have ia: "DataType_IsArray n h (Some t) \<noteq> None"
          using Suc.prems(1) ch by (rule DataType_IsArray_returns)
        have ta: "DataType_ToArray n h (Some t) \<noteq> None"
          using Suc.prems(1) ch by (rule DataType_ToArray_returns)
        have el: "AttributeDefinition_Validate n h c' (AttributeDef x) e \<noteq> None"
          if "DataType_ToArray n h (Some t) = Ok (Some e)" for e c'
        proof (rule Suc.IH [OF Suc.prems(1)], intro allI impI)
          fix y assume "e = Some y"
          with that have "DataType_ToArray n h (Some t) = Ok (Some (Some y))" by simp
          from DataType_ToArray_element [OF Suc.prems(1) this ch] show "rk y < n" .
        qed
        show ?thesis unfolding \<open>a = Some x\<close> ADV_other [OF t False]
        proof (rule bind_returns [OF ia])
          fix isArray
          show "(if isArray then
              bind (DataType_ToArray n h (Some t))
                (\<lambda>arr. case arr of
                          None \<Rightarrow> Panic NilDereference
                        | Some elemType \<Rightarrow>
                            bind (AttributeDefinition_Validate n h (ctx_dash ctx) (AttributeDef x) elemType)
                              (\<lambda>err. Ok (AsError (Merge_if
                                 (check_validations new_ValidationErrors parent (ctx_dash ctx) [] False
                                    (Validations (attributes h x))) err))))
            else Ok (AsError (check_validations new_ValidationErrors parent (ctx_dash ctx) [] False
                                    (Validations (attributes h x))))) \<noteq> None"
          proof (cases isArray)
            case False
            then show ?thesis by simp
          next
            case True
            have "bind (DataType_ToArray n h (Some t))
                (\<lambda>arr. case arr of
                          None \<Rightarrow> Panic NilDereference
                        | Some elemType \<Rightarrow>
                            bind (AttributeDefinition_Validate n h (ctx_dash ctx) (AttributeDef x) elemType)
                              (\<lambda>err. Ok (AsError (Merge_if
                                 (check_validations new_ValidationErrors parent (ctx_dash ctx) [] False
                                    (Validations (attributes h x))) err)))) \<noteq> None"
            proof (rule bind_returns [OF ta])
              fix arr assume arr: "DataType_ToArray n h (Some t) = Ok arr"
              show "(case arr of
                          None \<Rightarrow> Panic NilDereference
                        | Some elemType \<Rightarrow>
                            bind (AttributeDefinition_Validate n h (ctx_dash ctx) (AttributeDef x) elemType)
                              (\<lambda>err. Ok (AsError (Merge_if
                                 (check_validations new_ValidationErrors parent (ctx_dash ctx) [] False
                                    (Validations (attributes h x))) err)))) \<noteq> None"
              proof (cases arr)
                case None
                then show ?thesis by simp
              next
                case (Some e)
                with arr have "DataType_ToArray n h (Some t) = Ok (Some e)" by simp
                from el [OF this] show ?thesis unfolding Some option.case
                  by (rule bind_returns) simp
              qed
            qed
            with True show ?thesis by simp
          qed
        qed
      qed
    qed
  qed
qed

lemma AttributeDefinition_Validate_fuel:
  "ranked h rk N \<Longrightarrow> N \<le> n \<Longrightarrow> AttributeDefinition_Validate n h ctx parent a \<noteq> None"
proof (rule AttributeDefinition_Validate_returns)
  assume "ranked h rk N" "N \<le> n"
  then show "\<forall>x. a = Some x \<longrightarrow> rk x < n" by (auto simp: ranked_def intro: less_le_trans)
qed

lemma DataType_ToObject_fuel:
  "ranked h rk N \<Longrightarrow> N \<le> n \<Longrightarrow> DataType_ToObject n h t \<noteq> None"
proof (rule DataType_ToObject_returns)
  assume "ranked h rk N" "N \<le> n"
  then show "\<forall>c \<in> set (children_of h t). rk c < n" by (auto simp: ranked_def intro: less_le_trans)
qed

lemma DataType_ToArray_fuel:
  "ranked h rk N \<Longrightarrow> N \<le> n \<Longrightarrow> DataType_ToArray n h t \<noteq> None"
proof (rule DataType_ToArray_returns)
  assume "ranked h rk N" "N \<le> n"
  then show "\<forall>c \<in> set (children_of h t). rk c < n" by (auto simp: ranked_def intro: less_le_trans)
qed

lemma merge_returns: "m \<noteq> None \<Longrightarrow> bind m (\<lambda>err. Ok (g err)) \<noteq> None"
  by (rule bind_returns) simp_all

lemma merge_eq_None: "bind m (\<lambda>err. Ok (g err)) = None \<longleftrightarrow> m = None"
  by (auto simp: bind_eq_None)

lemma ResponseDefinition_Validate_fuel:
  "ranked h rk N \<Longrightarrow> N \<le> n \<Longrightarrow> ResponseDefinition_Validate n h r \<noteq> None"
  by (cases "Headers r")
     (simp_all add: ResponseDefinition_Validate_def Let_def merge_eq_None
        AttributeDefinition_Validate_fuel [of h rk N])

lemma UserTypeDefinition_Validate_fuel:
  "ranked h rk N \<Longrightarrow> N \<le> n \<Longrightarrow> UserTypeDefinition_Validate n h ctx parent u \<noteq> None"
  unfolding UserTypeDefinition_Validate_def Let_def
  by (intro merge_returns AttributeDefinition_Validate_fuel [of h rk N])

lemma ViewDefinition_Validate_fuel:
  "ranked h rk N \<Longrightarrow> N \<le> n \<Longrightarrow> ViewDefinition_Validate n h v \<noteq> None"
  unfolding ViewDefinition_Validate_def Let_def
  by (intro merge_returns AttributeDefinition_Validate_fuel [of h rk N])

lemma LinkDefinition_Validate_fuel:
  assumes "ranked h rk N" and "N \<le> n"
  shows "LinkDefinition_Validate n h l \<noteq> None"
proof (cases "link_Parent l")
  case None
  then show ?thesis by (simp add: LinkDefinition_Validate_def)
next
  case (Some p)
  have o: "DataType_ToObject n h (Some (MediaType p)) \<noteq> None"
    using assms by (rule DataType_ToObject_fuel)
  then obtain r where r: "DataType_ToObject n h (Some (MediaType p)) = Some r" by blast
  show ?thesis
  proof (cases r)
    case (Inl q)
    with r Some show ?thesis by (simp add: LinkDefinition_Validate_def)
  next
    case (Inr obj)
    with r Some show ?thesis
      by (simp add: LinkDefinition_Validate_def Let_def split: option.splits)
  qed
qed

lemma MediaType_attribute_fuel:
  assumes "ranked h rk N" and "N \<le> n"
  shows "MediaType_attribute n h m f verr \<noteq> None"
proof -
  obtain nm att where f: "f = (nm, att)" by (cases f)
  have a: "AttributeDefinition_Validate n h (''attribute '' @ nm) (MediaTypeDef m) att \<noteq> None"
    using assms by (rule AttributeDefinition_Validate_fuel)
  show ?thesis unfolding MediaType_attribute_def f prod.case
    by (rule bind_returns [OF a]) (simp add: Let_def split: option.splits)
qed

lemma Action_parameter_fuel:
  assumes "ranked h rk N" and "N \<le> n"
  shows "Action_parameter n h a f verr \<noteq> None"
proof -
  obtain nm p where f: "f = (nm, p)" by (cases f)
  have a: "AttributeDefinition_Validate n h c (ActionDef a) q \<noteq> None" for c q
    using assms by (rule AttributeDefinition_Validate_fuel)
  show ?thesis
  proof (cases p)
    case None
    then show ?thesis by (simp add: Action_parameter_def f Let_def)
  next
    case (Some pa)
    then show ?thesis
      by (cases "Type (attributes h pa)")
         (simp_all add: Action_parameter_def f Let_def merge_eq_None a [unfolded not_None_eq])
  qed
qed

lemma responses_loop_fuel:
  assumes "ranked h rk N" and "N \<le> n"
  shows "for_each (\<lambda>resp verr. bind (ResponseDefinition_Validate n h resp) (\<lambda>err. Ok (Merge_if verr err)))
           rs v \<noteq> None"
  by (intro for_each_returns merge_returns ResponseDefinition_Validate_fuel [OF assms])

lemma ActionDefinition_ValidateParams_fuel:
  assumes "ranked h rk N" and "N \<le> n"
  shows "ActionDefinition_ValidateParams n h a \<noteq> None"
proof (cases "act_Params a")
  case None
  then show ?thesis by (simp add: ActionDefinition_ValidateParams_def)
next
  case (Some ps)
  have p: "for_each (Action_parameter n h a) params v \<noteq> None" for params v
    by (intro for_each_returns Action_parameter_fuel [OF assms])
  show ?thesis unfolding ActionDefinition_ValidateParams_def Let_def Some option.case case_prod_unfold
    by (intro bind_returns p responses_loop_fuel [OF assms]) simp
qed

lemma ActionDefinition_Validate_fuel:
  assumes "ranked h rk N" and "N \<le> n"
  shows "ActionDefinition_Validate n h a \<noteq> None"
proof -
  have l: "for_each (\<lambda>x verr. let verr = duplicate_statuses (Responses a) (fst x) (snd x) verr
                    in bind (ResponseDefinition_Validate n h (snd x))
                            (\<lambda>err. Ok (Merge_if verr err)))
                 (enumerate 0 (Responses a)) v \<noteq> None" for v
    unfolding Let_def
    by (intro for_each_returns merge_returns ResponseDefinition_Validate_fuel [OF assms])
  have py: "(case Payload a of
                              None \<Rightarrow> Ok verr
                            | Some p \<Rightarrow>
                                bind (UserTypeDefinition_Validate n h ''action payload'' (ActionDef a)
                                        (user_types h p))
                                     (\<lambda>err. Ok (Merge_if verr err))) \<noteq> None" for verr
    by (cases "Payload a")
       (simp_all add: merge_eq_None UserTypeDefinition_Validate_fuel [OF assms])
  show ?thesis unfolding ActionDefinition_Validate_def Let_def case_prod_unfold
    by (intro bind_returns l [unfolded Let_def] ActionDefinition_ValidateParams_fuel [OF assms] py) simp
qed

lemma Resource_BaseParams_returns: "Resource_BaseParams E h r verr \<noteq> None"
  by (auto simp: Resource_BaseParams_def Let_def case_prod_unfold bind_eq_None split: option.splits)

lemma ResourceDefinition_Validate_fuel:
  assumes "ranked h rk N" and "N \<le> n"
  shows "ResourceDefinition_Validate E n h r \<noteq> None"
proof -
  have l: "for_each (\<lambda>a verr. bind (ActionDefinition_Validate n h a) (\<lambda>err. Ok (Merge_if verr err)))
                 (Actions r) v \<noteq> None" for v
    by (intro for_each_returns merge_returns ActionDefinition_Validate_fuel [OF assms])
  have ps: "(case res_Params r of
                                      None \<Rightarrow> Ok verr
                                    | Some ps \<Rightarrow>
                                        bind (AttributeDefinition_Validate n h ''resource parameters''
                                                (ResourceDef r) (Some ps))
                                             (\<lambda>err. Ok (Merge_if verr err))) \<noteq> None" for verr
    by (cases "res_Params r")
       (simp_all add: merge_eq_None AttributeDefinition_Validate_fuel [OF assms])
  show ?thesis unfolding ResourceDefinition_Validate_def Let_def
    by (intro bind_returns l Resource_BaseParams_returns responses_loop_fuel [OF assms] ps) simp
qed

lemma children_of_default_Identifier [simp]:
  "children_of (default_Identifier h m) t = children_of h t"
  by (cases "(h, t)" rule: children_of.cases) (simp_all add: default_Identifier_def)

lemma children_of_default_Type [simp]:
  "children_of (default_Type h a) t = children_of h t"
  by (cases "(h, t)" rule: children_of.cases) (simp_all add: default_Type_def)

lemma contains_default_Identifier [simp]: "contains (default_Identifier h m) = contains h"
  by (simp add: contains_def) (simp add: default_Identifier_def)

lemma contains_default_Type:
  "Type (attributes h a) = None \<Longrightarrow> contains (default_Type h a) = contains h"
proof -
  assume n: "Type (attributes h a) = None"
  have "children_of h (Type (attributes (default_Type h a) x)) = children_of h (Type (attributes h x))" for x
    using n by (simp add: default_Type_def)
  then show ?thesis by (simp add: contains_def)
qed

lemma contains_MediaType_defaults [simp]: "contains (MediaType_defaults h m) = contains h"
  by (simp add: MediaType_defaults_def Let_def contains_default_Type)

lemma ranked_contains: "contains h' = contains h \<Longrightarrow> ranked h rk N \<Longrightarrow> ranked h' rk N"
  by (simp add: ranked_def)

lemma MediaTypeDefinition_Validate_heap:
  "MediaTypeDefinition_Validate E n h m = Ok (h', r) \<Longrightarrow> h' = MediaType_defaults h m"
  by (auto simp: MediaTypeDefinition_Validate_def Let_def bind_eq_Ok)

lemma MediaType_object_fuel:
  assumes "ranked h rk N" and "N \<le> n"
  shows "MediaType_object n h m verr \<noteq> None"
proof -
  let ?a = "ut_Attribute (mt_UserType (media_types h m))"
  have ta: "DataType_ToArray n h (Type (attributes h ?a)) \<noteq> None"
    using assms by (rule DataType_ToArray_fuel)
  have adv: "AttributeDefinition_Validate n h c d q \<noteq> None" for c d q
    using assms by (rule AttributeDefinition_Validate_fuel)
  have to: "DataType_ToObject n h t \<noteq> None" for t
    using assms by (rule DataType_ToObject_fuel)
  show ?thesis unfolding MediaType_object_def Let_def
  proof (rule bind_returns [OF ta])
    fix arr
    show "(case arr of
                Some None \<Rightarrow> Ok (Add verr (MediaTypeDef m) ''array element type is nil'', None)
              | Some (Some elemType) \<Rightarrow>
                  bind (AttributeDefinition_Validate n h ''array element'' (MediaTypeDef m)
                          (Some elemType))
                    (\<lambda>err. case err of
                              Some e \<Rightarrow> Ok (Merge verr e, None)
                            | None \<Rightarrow>
                                bind (DataType_ToObject n h (Type (attributes h elemType)))
                                  (\<lambda>obj. Ok (verr, obj)))
              | None \<Rightarrow>
                  bind (DataType_ToObject n h (Type (attributes h ?a)))
                    (\<lambda>obj. Ok (verr, obj))) \<noteq> None"
    proof (cases arr)
      case None
      then show ?thesis by (simp add: merge_eq_None to)
    next
      case (Some e)
      show ?thesis
      proof (cases e)
        case None
        with Some show ?thesis by simp
      next
        case (Some elemType)
        have "bind (AttributeDefinition_Validate n h ''array element'' (MediaTypeDef m)
                          (Some elemType))
                    (\<lambda>err. case err of
                              Some e \<Rightarrow> Ok (Merge verr e, None)
                            | None \<Rightarrow>
                                bind (DataType_ToObject n h (Type (attributes h elemType)))
                                  (\<lambda>obj. Ok (verr, obj))) \<noteq> None"
        proof (rule bind_returns [OF adv])
          fix err
          show "(case err of
                              Some e \<Rightarrow> Ok (Merge verr e, None)
                            | None \<Rightarrow>
                                bind (DataType_ToObject n h (Type (attributes h elemType)))
                                  (\<lambda>obj. Ok (verr, obj))) \<noteq> None"
            by (cases err) (simp_all add: merge_eq_None to)
        qed
        with \<open>arr = Some e\<close> Some show ?thesis by simp
      qed
    qed
  qed
qed

lemma MediaTypeDefinition_Validate_fuel:
  assumes "ranked h rk N" and "N \<le> n"
  shows "MediaTypeDefinition_Validate E n h m \<noteq> None"
proof -
  let ?h = "MediaType_defaults h m"
  have r: "ranked ?h rk N" using assms(1) by (intro ranked_contains [of ?h h]) simp_all
  have ut: "UserTypeDefinition_Validate n h [] (MediaTypeDef m) (mt_UserType (media_types h m)) \<noteq> None"
    using assms by (rule UserTypeDefinition_Validate_fuel)
  have ob: "MediaType_object n ?h m v \<noteq> None" for v
    using r assms(2) by (rule MediaType_object_fuel)
  have at: "(case obj of None \<Rightarrow> Ok v
            | Some ob \<Rightarrow> for_each (MediaType_attribute n ?h m) ob v) \<noteq> None" for obj v
    by (cases obj) (simp_all add: for_each_returns MediaType_attribute_fuel [OF r assms(2)])
  have vs: "for_each (\<lambda>(nm, v) verr. bind (ViewDefinition_Validate n ?h v) (\<lambda>err. Ok (Merge_if verr err)))
              xs v \<noteq> None" for xs v
    by (intro for_each_returns) (simp add: case_prod_unfold merge_eq_None ViewDefinition_Validate_fuel [OF r assms(2)])
  have ls: "for_each (\<lambda>(nm, l) verr. bind (LinkDefinition_Validate n ?h l) (\<lambda>err. Ok (Merge_if verr err)))
              xs v \<noteq> None" for xs v
    by (intro for_each_returns) (simp add: case_prod_unfold merge_eq_None LinkDefinition_Validate_fuel [OF r assms(2)])
  show ?thesis unfolding MediaTypeDefinition_Validate_def Let_def
  proof (rule bind_returns [OF ut], rule bind_returns [OF ob])
    fix x :: "verrs \<times> (string \<times> addr option) list option"
    obtain verr obj where x: "x = (verr, obj)" by (cases x)
    show "(case x of (verr, obj) \<Rightarrow>
                      bind (case obj of
                              None \<Rightarrow> Ok verr
                            | Some ob \<Rightarrow> for_each (MediaType_attribute n ?h m) ob verr)
                        (\<lambda>verr.
                           bind (for_each
                                   (\<lambda>(nm, v) verr.
                                      bind (ViewDefinition_Validate n ?h v)
                                           (\<lambda>err. Ok (Merge_if verr err)))
                                   (Views (media_types ?h m)) verr)
                             (\<lambda>verr.
                                bind (for_each
                                        (\<lambda>(nm, l) verr.
                                           bind (LinkDefinition_Validate n ?h l)
                                                (\<lambda>err. Ok (Merge_if verr err)))
                                        (Links (media_types ?h m)) verr)
                                  (\<lambda>verr. Ok (?h, AsError verr))))) \<noteq> None"
      unfolding x prod.case
      by (intro bind_returns at vs ls) simp
  qed
qed

text \<open>
  Claim C8. For a heap in which no attribute transitively contains itself through the
  fields of an object, the element of an array or the attribute of a user type or media
  type (the heap of a Go program is finite), \<^verbatim>\<open>APIDefinition.Validate\<close> terminates:
  there is an amount of fuel from which on the validator returns, with its result or
  with a panic.
\<close>

theorem APIDefinition_Validate_terminates:
  assumes "finite (contains h)" and "acyclic (contains h)"
  shows "\<exists>N. \<forall>n \<ge> N. APIDefinition_Validate E n h a \<noteq> None"
proof -
  from acyclic_ranked [OF assms] obtain rk N where r: "ranked h rk N" by blast
  have "APIDefinition_Validate E n h a \<noteq> None" if n: "N \<le> n" for n
  proof -
    have bp: "AttributeDefinition_Validate n h ''base parameters'' (APIDef a) (api_BaseParams a) \<noteq> None"
      using r n by (rule AttributeDefinition_Validate_fuel)
    have rs: "for_each (\<lambda>r verr. bind (ResourceDefinition_Validate E n h r) (\<lambda>err. Ok (Merge_if verr err)))
                (api_Resources a) v \<noteq> None" for v
      by (intro for_each_returns merge_returns ResourceDefinition_Validate_fuel [OF r n])
    have mts: "for_each (\<lambda>mt (h, verr). bind (MediaTypeDefinition_Validate E n h mt)
                                      (\<lambda>(h, err). Ok (h, Merge_if verr err)))
                (api_MediaTypes a) (h, v) \<noteq> None" for v
    proof (rule for_each_not_None [where P = "\<lambda>s. contains (fst s) = contains h"])
      show "contains (fst (h, v)) = contains h" by simp
    next
      fix mt and s :: "heap \<times> verrs"
      assume c: "contains (fst s) = contains h"
      obtain h1 v1 where s: "s = (h1, v1)" by (cases s)
      have r1: "ranked h1 rk N" using c s r by (intro ranked_contains [of h1 h]) simp_all
      have m: "MediaTypeDefinition_Validate E n h1 mt \<noteq> None"
        using r1 n by (rule MediaTypeDefinition_Validate_fuel)
      have 1: "(case s of (h, verr) \<Rightarrow> bind (MediaTypeDefinition_Validate E n h mt)
                                      (\<lambda>(h, err). Ok (h, Merge_if verr err))) \<noteq> None"
        unfolding s prod.case by (rule bind_returns [OF m]) (simp add: case_prod_unfold)
      have 2: "contains (fst s') = contains h"
        if "(case s of (h, verr) \<Rightarrow> bind (MediaTypeDefinition_Validate E n h mt)
                                      (\<lambda>(h, err). Ok (h, Merge_if verr err))) = Ok s'" for s'
      proof -
        from that obtain h2 e where "MediaTypeDefinition_Validate E n h1 mt = Ok (h2, e)"
          and "s' = (h2, Merge_if v1 e)"
          by (auto simp: s bind_eq_Ok)
        with MediaTypeDefinition_Validate_heap [of E n h1 mt h2 e] c s show ?thesis by simp
      qed
      from 1 2 show "(case s of (h, verr) \<Rightarrow> bind (MediaTypeDefinition_Validate E n h mt)
                                      (\<lambda>(h, err). Ok (h, Merge_if verr err))) \<noteq> None
            \<and> (\<forall>s'. (case s of (h, verr) \<Rightarrow> bind (MediaTypeDefinition_Validate E n h mt)
                                      (\<lambda>(h, err). Ok (h, Merge_if verr err))) = Ok s'
                   \<longrightarrow> contains (fst s') = contains h)" by blast
    qed
    have mth: "contains (fst s') = contains h"
      if "for_each (\<lambda>mt (h, verr). bind (MediaTypeDefinition_Validate E n h mt)
                                      (\<lambda>(h, err). Ok (h, Merge_if verr err)))
                (api_MediaTypes a) (h, v) = Ok s'" for v s'
      using that
    proof (rule for_each_invariant [where P = "\<lambda>s. contains (fst s) = contains h"])
      show "contains (fst (h, v)) = contains h" by simp
    next
      fix mt and s s' :: "heap \<times> verrs"
      assume c: "contains (fst s) = contains h"
        and b: "(case s of (h, verr) \<Rightarrow> bind (MediaTypeDefinition_Validate E n h mt)
                                      (\<lambda>(h, err). Ok (h, Merge_if verr err))) = Ok s'"
      obtain h1 v1 where s: "s = (h1, v1)" by (cases s)
      from b obtain h2 e where "MediaTypeDefinition_Validate E n h1 mt = Ok (h2, e)"
          and "s' = (h2, Merge_if v1 e)"
          by (auto simp: s bind_eq_Ok)
      with MediaTypeDefinition_Validate_heap [of E n h1 mt h2 e] c s
      show "contains (fst s') = contains h" by simp
    qed
    have rest: "(case s' of (h, verr) \<Rightarrow>
                           bind (for_each
                                   (\<lambda>t verr.
                                      bind (UserTypeDefinition_Validate n h [] (APIDef a) (user_types h t))
                                           (\<lambda>err. Ok (Merge_if verr err)))
                                   (api_Types a) verr)
                             (\<lambda>verr.
                                bind (for_each
                                        (\<lambda>r verr.
                                           bind (ResponseDefinition_Validate n h r)
                                                (\<lambda>err. Ok (Merge_if verr err)))
                                        (api_Responses a) verr)
                                  (\<lambda>verr. Ok (h, AsError verr)))) \<noteq> None"
      if c: "contains (fst s') = contains h" for s'
    proof -
      obtain h1 v1 where s: "s' = (h1, v1)" by (cases s')
      have r1: "ranked h1 rk N" using c s r by (intro ranked_contains [of h1 h]) simp_all
      have ts: "for_each (\<lambda>t verr. bind (UserTypeDefinition_Validate n h1 [] (APIDef a) (user_types h1 t))
                                           (\<lambda>err. Ok (Merge_if verr err)))
                                   (api_Types a) v \<noteq> None" for v
        by (intro for_each_returns merge_returns UserTypeDefinition_Validate_fuel [OF r1 n])
      show ?thesis unfolding s prod.case
        by (intro bind_returns ts responses_loop_fuel [OF r1 n]) simp
    qed
    show ?thesis unfolding APIDefinition_Validate_def Let_def
      by (intro bind_returns bp rs mts rest mth) 
  qed
  then show ?thesis by blast
qed

lemma contains_list_heap: "contains list_heap = {(1, 2)}"
  by (auto simp: contains_def list_heap_def empty_heap_def attribute_of_def split: if_splits)

theorem APIDefinition_Validate_terminates_witness:
  "finite (contains list_heap) \<and> acyclic (contains list_heap)
   \<and> (\<exists>N. \<forall>n \<ge> N. APIDefinition_Validate plain_env n list_heap list_api \<noteq> None)"
proof -
  have f: "finite (contains list_heap)" by (simp add: contains_list_heap)
  have a: "acyclic (contains list_heap)"
    by (rule acyclicI_order [where f = "\<lambda>a. if a = (1::nat) then (1::nat) else 0"])
       (simp add: contains_list_heap)
  from APIDefinition_Validate_terminates [OF f a, of plain_env list_api] f a
  show ?thesis by blast
qed

text \<open>
  Not every heap is such: on an attribute that is an array of itself the validator of
  attributes does not return, whatever the fuel.
\<close>

lemma cyclic_array_never_returns:
  "AttributeDefinition_Validate n loop_heap ctx parent (Some 1) = None"
proof (induction n arbitrary: ctx parent)
  case 0
  show ?case by simp
next
  case (Suc n)
  have t: "Type (attributes loop_heap (Suc 0)) = Some (Array (Some 1))"
    by (simp add: loop_heap_def attribute_of_def)
  show ?case using Suc by (simp add: ADV_other [OF t])
qed

end
